theory Spec2Isabelle
  imports Main "HOL-Library.Word"
begin

unbundle bit_operations_syntax

section \<open>Bytes and exceptions\<close>

text \<open>
  A Python \<^verbatim>\<open>bytes\<close> value is a list of 8-bit words. Integers that the program
  only counts with (lengths, nonce counters, decoded numbers) are natural numbers:
  Python's integers are unbounded and these are never negative.
\<close>

type_synonym byte = "8 word"
type_synonym bytes = "byte list"

text \<open>The exceptions that the modelled code can raise.\<close>

datatype error =
    ValueError
  | InvalidTag
  | AssertionError
  | KeyFailure
  | ProtocolError

text \<open>
  \<^item> \<open>ValueError\<close>: \<^verbatim>\<open>bytes.fromhex\<close> on a malformed string, a cipher key that is
    not 32 bytes, a nonce that is not 12 bytes;
  \<^item> \<open>InvalidTag\<close>: \<^verbatim>\<open>cryptography.exceptions.InvalidTag\<close>;
  \<^item> \<open>AssertionError\<close>: a failed \<^verbatim>\<open>assert\<close>;
  \<^item> \<open>KeyFailure\<close>: any exception of the elliptic-curve primitive;
  \<^item> \<open>ProtocolError\<close>: the error kind that the specification names for a malformed
    handshake message. No statement of the program raises it.
\<close>

text \<open>Cutting a list into \<open>k\<close> consecutive pieces of \<open>sz\<close> elements.\<close>

fun split_blocks :: "nat \<Rightarrow> nat \<Rightarrow> 'a list \<Rightarrow> 'a list list" where
  "split_blocks sz 0 xs = []"
| "split_blocks sz (Suc k) xs = take sz xs # split_blocks sz k (drop sz xs)"

text \<open>Little-endian and big-endian readings of a byte string, and their inverses.\<close>

definition le_nat :: "bytes \<Rightarrow> nat" where
  "le_nat bs = foldr (\<lambda>b acc. unat b + 256 * acc) bs 0"

definition nat_le :: "nat \<Rightarrow> nat \<Rightarrow> bytes" where
  "nat_le count n = map (\<lambda>i. of_nat (n div 256 ^ i)) [0..<count]"

definition nat_be :: "nat \<Rightarrow> nat \<Rightarrow> bytes" where
  "nat_be count n = rev (nat_le count n)"

section \<open>SHA-256 (\<^verbatim>\<open>hashlib.sha256\<close>, FIPS 180-4)\<close>

definition be_word32 :: "bytes \<Rightarrow> 32 word" where
  "be_word32 bs = foldl (\<lambda>acc b. push_bit 8 acc OR ucast b) 0 bs"

definition word32_be :: "32 word \<Rightarrow> bytes" where
  "word32_be w = [ucast (drop_bit 24 w), ucast (drop_bit 16 w), ucast (drop_bit 8 w), ucast w]"

text \<open>The round constants, eight to a row.\<close>

definition sha256_K :: "32 word list" where
  "sha256_K =
     [0x428a2f98, 0x71374491, 0xb5c0fbcf, 0xe9b5dba5, 0x3956c25b, 0x59f111f1, 0x923f82a4, 0xab1c5ed5]
   @ [0xd807aa98, 0x12835b01, 0x243185be, 0x550c7dc3, 0x72be5d74, 0x80deb1fe, 0x9bdc06a7, 0xc19bf174]
   @ [0xe49b69c1, 0xefbe4786, 0x0fc19dc6, 0x240ca1cc, 0x2de92c6f, 0x4a7484aa, 0x5cb0a9dc, 0x76f988da]
   @ [0x983e5152, 0xa831c66d, 0xb00327c8, 0xbf597fc7, 0xc6e00bf3, 0xd5a79147, 0x06ca6351, 0x14292967]
   @ [0x27b70a85, 0x2e1b2138, 0x4d2c6dfc, 0x53380d13, 0x650a7354, 0x766a0abb, 0x81c2c92e, 0x92722c85]
   @ [0xa2bfe8a1, 0xa81a664b, 0xc24b8b70, 0xc76c51a3, 0xd192e819, 0xd6990624, 0xf40e3585, 0x106aa070]
   @ [0x19a4c116, 0x1e376c08, 0x2748774c, 0x34b0bcb5, 0x391c0cb3, 0x4ed8aa4a, 0x5b9cca4f, 0x682e6ff3]
   @ [0x748f82ee, 0x78a5636f, 0x84c87814, 0x8cc70208, 0x90befffa, 0xa4506ceb, 0xbef9a3f7, 0xc67178f2]"

type_synonym sha256_state =
  "32 word \<times> 32 word \<times> 32 word \<times> 32 word \<times> 32 word \<times> 32 word \<times> 32 word \<times> 32 word"

definition sha256_H0 :: sha256_state where
  "sha256_H0 =
   (0x6a09e667, 0xbb67ae85, 0x3c6ef372, 0xa54ff53a, 0x510e527f, 0x9b05688c, 0x1f83d9ab, 0x5be0cd19)"

definition Ch :: "32 word \<Rightarrow> 32 word \<Rightarrow> 32 word \<Rightarrow> 32 word" where
  "Ch x y z = (x AND y) XOR (NOT x AND z)"

definition Maj :: "32 word \<Rightarrow> 32 word \<Rightarrow> 32 word \<Rightarrow> 32 word" where
  "Maj x y z = (x AND y) XOR (x AND z) XOR (y AND z)"

definition Sigma0 :: "32 word \<Rightarrow> 32 word" where
  "Sigma0 x = word_rotr 2 x XOR word_rotr 13 x XOR word_rotr 22 x"

definition Sigma1 :: "32 word \<Rightarrow> 32 word" where
  "Sigma1 x = word_rotr 6 x XOR word_rotr 11 x XOR word_rotr 25 x"

definition sigma0 :: "32 word \<Rightarrow> 32 word" where
  "sigma0 x = word_rotr 7 x XOR word_rotr 18 x XOR drop_bit 3 x"

definition sigma1 :: "32 word \<Rightarrow> 32 word" where
  "sigma1 x = word_rotr 17 x XOR word_rotr 19 x XOR drop_bit 10 x"

text \<open>The message schedule: \<open>n\<close> more words after the ones in \<open>w\<close>.\<close>

fun sha256_schedule :: "nat \<Rightarrow> 32 word list \<Rightarrow> 32 word list" where
  "sha256_schedule 0 w = w"
| "sha256_schedule (Suc n) w =
     sha256_schedule n
       (w @ [sigma1 (w ! (length w - 2)) + w ! (length w - 7)
             + sigma0 (w ! (length w - 15)) + w ! (length w - 16)])"

fun sha256_round :: "sha256_state \<Rightarrow> 32 word \<times> 32 word \<Rightarrow> sha256_state" where
  "sha256_round (a, b, c, d, e, f, g, h) (k, w) =
     (let t1 = h + Sigma1 e + Ch e f g + k + w;
          t2 = Sigma0 a + Maj a b c
      in (t1 + t2, a, b, c, d + t1, e, f, g))"

fun sha256_add :: "sha256_state \<Rightarrow> sha256_state \<Rightarrow> sha256_state" where
  "sha256_add (a, b, c, d, e, f, g, h) (a', b', c', d', e', f', g', h') =
     (a + a', b + b', c + c', d + d', e + e', f + f', g + g', h + h')"

definition sha256_compress :: "sha256_state \<Rightarrow> bytes \<Rightarrow> sha256_state" where
  "sha256_compress st block =
     (let w = sha256_schedule 48 (map be_word32 (split_blocks 4 16 block))
      in sha256_add st (foldl sha256_round st (zip sha256_K w)))"

definition sha256_pad :: "bytes \<Rightarrow> bytes" where
  "sha256_pad m =
     m @ [0x80] @ replicate ((64 - (length m + 9) mod 64) mod 64) 0 @ nat_be 8 (8 * length m)"

fun sha256_digest :: "sha256_state \<Rightarrow> bytes" where
  "sha256_digest (a, b, c, d, e, f, g, h) =
     concat (map word32_be [a, b, c, d, e, f, g, h])"

definition sha256 :: "bytes \<Rightarrow> bytes" where
  "sha256 m =
     (let p = sha256_pad m
      in sha256_digest (foldl sha256_compress sha256_H0 (split_blocks 64 (length p div 64) p)))"

section \<open>HMAC-SHA256 (\<^verbatim>\<open>hmac.new(key, msg, hashlib.sha256).digest()\<close>, RFC 2104)\<close>

definition hmac_sha256 :: "bytes \<Rightarrow> bytes \<Rightarrow> bytes" where
  "hmac_sha256 key msg =
     (let k = (if length key > 64 then sha256 key else key);
          k = k @ replicate (64 - length k) 0
      in sha256 (map (\<lambda>b. b XOR 0x5c) k @ sha256 (map (\<lambda>b. b XOR 0x36) k @ msg)))"

section \<open>ChaCha20-Poly1305 (\<^verbatim>\<open>cryptography\<close>'s \<^verbatim>\<open>AEAD.ChaCha20Poly1305\<close>, RFC 8439)\<close>

definition le_word32 :: "bytes \<Rightarrow> 32 word" where
  "le_word32 bs = foldr (\<lambda>b acc. push_bit 8 acc OR ucast b) bs 0"

definition word32_le :: "32 word \<Rightarrow> bytes" where
  "word32_le w = [ucast w, ucast (drop_bit 8 w), ucast (drop_bit 16 w), ucast (drop_bit 24 w)]"

definition quarter_round :: "nat \<Rightarrow> nat \<Rightarrow> nat \<Rightarrow> nat \<Rightarrow> 32 word list \<Rightarrow> 32 word list" where
  "quarter_round i j k l st =
     (let a = st ! i; b = st ! j; c = st ! k; d = st ! l;
          a = a + b; d = word_rotl 16 (d XOR a);
          c = c + d; b = word_rotl 12 (b XOR c);
          a = a + b; d = word_rotl 8 (d XOR a);
          c = c + d; b = word_rotl 7 (b XOR c)
      in st[i := a, j := b, k := c, l := d])"

definition double_round :: "32 word list \<Rightarrow> 32 word list" where
  "double_round st =
     (quarter_round 3 4 9 14 \<circ> quarter_round 2 7 8 13 \<circ>
      quarter_round 1 6 11 12 \<circ> quarter_round 0 5 10 15 \<circ>
      quarter_round 3 7 11 15 \<circ> quarter_round 2 6 10 14 \<circ>
      quarter_round 1 5 9 13 \<circ> quarter_round 0 4 8 12) st"

definition chacha20_block :: "bytes \<Rightarrow> 32 word \<Rightarrow> bytes \<Rightarrow> bytes" where
  "chacha20_block key counter nonce =
     (let st = [0x61707865, 0x3320646e, 0x79622d32, 0x6b206574]
               @ map le_word32 (split_blocks 4 8 key)
               @ [counter]
               @ map le_word32 (split_blocks 4 3 nonce)
      in concat (map word32_le (map2 (+) ((double_round ^^ 10) st) st)))"

definition chacha20_keystream :: "bytes \<Rightarrow> 32 word \<Rightarrow> bytes \<Rightarrow> nat \<Rightarrow> bytes" where
  "chacha20_keystream key counter nonce nblocks =
     concat (map (\<lambda>j. chacha20_block key (counter + of_nat j) nonce) [0..<nblocks])"

definition chacha20_encrypt :: "bytes \<Rightarrow> 32 word \<Rightarrow> bytes \<Rightarrow> bytes \<Rightarrow> bytes" where
  "chacha20_encrypt key counter nonce data =
     map2 (XOR) data (chacha20_keystream key counter nonce ((length data + 63) div 64))"

definition poly1305_clamp :: "nat \<Rightarrow> nat" where
  "poly1305_clamp r = r AND 0x0ffffffc0ffffffc0ffffffc0fffffff"

definition poly1305_mac :: "bytes \<Rightarrow> bytes \<Rightarrow> bytes" where
  "poly1305_mac msg key =
     (let r = poly1305_clamp (le_nat (take 16 key));
          s = le_nat (take 16 (drop 16 key));
          acc = foldl (\<lambda>acc blk. ((acc + le_nat (blk @ [1])) * r) mod (2 ^ 130 - 5)) 0
                  (split_blocks 16 ((length msg + 15) div 16) msg)
      in nat_le 16 (acc + s))"

definition pad16 :: "bytes \<Rightarrow> bytes" where
  "pad16 x = replicate ((16 - length x mod 16) mod 16) 0"

definition chacha20_poly1305_tag :: "bytes \<Rightarrow> bytes \<Rightarrow> bytes \<Rightarrow> bytes \<Rightarrow> bytes" where
  "chacha20_poly1305_tag key nonce aad ct =
     poly1305_mac (aad @ pad16 aad @ ct @ pad16 ct @ nat_le 8 (length aad) @ nat_le 8 (length ct))
       (take 32 (chacha20_block key 0 nonce))"

text \<open>
  \<^verbatim>\<open>ChaCha20Poly1305(key)\<close> raises \<^verbatim>\<open>ValueError\<close> unless the key has 32 bytes, and
  \<^verbatim>\<open>encrypt\<close> and \<^verbatim>\<open>decrypt\<close> raise it unless the nonce has 12 bytes. \<^verbatim>\<open>decrypt\<close>
  raises \<^verbatim>\<open>InvalidTag\<close> when its input is shorter than a tag or when the trailing 16
  bytes are not the tag of what precedes them.
\<close>

definition ChaCha20Poly1305_encrypt :: "bytes \<Rightarrow> bytes \<Rightarrow> bytes \<Rightarrow> bytes \<Rightarrow> error + bytes" where
  "ChaCha20Poly1305_encrypt key nonce data associated_data =
     (if length key \<noteq> 32 then Inl ValueError
      else if length nonce \<noteq> 12 then Inl ValueError
      else let ct = chacha20_encrypt key 1 nonce data
           in Inr (ct @ chacha20_poly1305_tag key nonce associated_data ct))"

definition ChaCha20Poly1305_decrypt :: "bytes \<Rightarrow> bytes \<Rightarrow> bytes \<Rightarrow> bytes \<Rightarrow> error + bytes" where
  "ChaCha20Poly1305_decrypt key nonce data associated_data =
     (if length key \<noteq> 32 then Inl ValueError
      else if length nonce \<noteq> 12 then Inl ValueError
      else if length data < 16 then Inl InvalidTag
      else let ct = take (length data - 16) data;
               tag = drop (length data - 16) data
           in if tag = chacha20_poly1305_tag key nonce associated_data ct
              then Inr (chacha20_encrypt key 1 nonce ct)
              else Inl InvalidTag)"

section \<open>Hexadecimal helpers of \<^verbatim>\<open>electrum.bitcoin\<close>\<close>

text \<open>
  \<^verbatim>\<open>lnbase.py\<close> imports \<^verbatim>\<open>int_to_hex\<close>, \<^verbatim>\<open>bfh\<close> and \<^verbatim>\<open>rev_hex\<close> from the module
  \<^verbatim>\<open>electrum.bitcoin\<close>, a module outside the files verified here. In the Electrum release
  that \<^verbatim>\<open>lnbase.py\<close> was written against (the one whose \<^verbatim>\<open>bitcoin\<close> module still exports
  \<^verbatim>\<open>public_key_from_private_key\<close>, \<^verbatim>\<open>ser_to_point\<close>, \<^verbatim>\<open>point_to_ser\<close> and
  \<^verbatim>\<open>string_to_number\<close>) they are, in essence,
  \<^verbatim>\<open>
  bfh = bytes.fromhex
  def bh2u(x): return binascii.hexlify(x).decode('ascii')
  def rev_hex(s): return bh2u(bfh(s)[::-1])
  def int_to_hex(i, length=1):
      s = hex(i)[2:].rstrip('L')
      s = "0"*(2*length - len(s)) + s
      return rev_hex(s)
  \<close>
  Hexadecimal strings are \<open>string\<close>s. There is no range check in this version: for
  \<open>i \<ge> 256 ^ length\<close> the string is longer than \<open>length\<close> bytes, or has an odd number
  of digits, on which \<^verbatim>\<open>bytes.fromhex\<close> raises. Every result below takes its integers
  in range, \<open>i < 256 ^ length\<close>, where a version that checks the range first returns
  the same string.
\<close>

definition hexdigit :: "nat \<Rightarrow> char" where
  "hexdigit d = (if d < 10 then char_of (48 + d) else char_of (87 + d))"

definition hexval :: "char \<Rightarrow> nat option" where
  "hexval c =
     (let n = of_char c :: nat in
      if 48 \<le> n \<and> n \<le> 57 then Some (n - 48)
      else if 97 \<le> n \<and> n \<le> 102 then Some (n - 87)
      else if 65 \<le> n \<and> n \<le> 70 then Some (n - 55)
      else None)"

text \<open>ASCII white space, which \<^verbatim>\<open>bytes.fromhex\<close> skips between bytes.\<close>

definition is_space :: "char \<Rightarrow> bool" where
  "is_space c = (of_char c \<in> {9, 10, 11, 12, 13, 32 :: nat})"

text \<open>
  Modelled from the spec: \<^verbatim>\<open>bfh\<close>, that is \<^verbatim>\<open>bytes.fromhex\<close>: two hexadecimal digits per
  byte, white space allowed between bytes, \<^verbatim>\<open>ValueError\<close> on anything else.
\<close>

fun bfh :: "string \<Rightarrow> error + bytes" where
  "bfh [] = Inr []"
| "bfh [c] = (if is_space c then Inr [] else Inl ValueError)"
| "bfh (c # d # cs) =
     (if is_space c then bfh (d # cs)
      else case (hexval c, hexval d) of
             (Some hi, Some lo) \<Rightarrow>
               (case bfh cs of Inl e \<Rightarrow> Inl e | Inr bs \<Rightarrow> Inr (of_nat (16 * hi + lo) # bs))
           | _ \<Rightarrow> Inl ValueError)"

text \<open>Modelled from the spec: \<^verbatim>\<open>bh2u\<close>, two lower-case digits per byte.\<close>

definition bh2u :: "bytes \<Rightarrow> string" where
  "bh2u bs = concat (map (\<lambda>b. [hexdigit (unat b div 16), hexdigit (unat b mod 16)]) bs)"

text \<open>Modelled from the spec: \<^verbatim>\<open>rev_hex\<close>, the bytes of a hexadecimal string in reverse order.\<close>

definition rev_hex :: "string \<Rightarrow> error + string" where
  "rev_hex s = (case bfh s of Inl e \<Rightarrow> Inl e | Inr bs \<Rightarrow> Inr (bh2u (rev bs)))"

text \<open>
  \<^verbatim>\<open>hex(i)[2:]\<close> for \<open>i \<ge> 0\<close>: the digits of \<open>i\<close> in base 16, most significant first,
  with no leading zero (and \<^verbatim>\<open>'0'\<close> for zero). \<open>hex_digits k i\<close> gives the \<open>k\<close> lowest
  digits; \<open>hex_len i\<close> is the number of digits of \<open>i\<close>.
\<close>

fun hex_digits :: "nat \<Rightarrow> nat \<Rightarrow> string" where
  "hex_digits 0 i = []"
| "hex_digits (Suc k) i = hex_digits k (i div 16) @ [hexdigit (i mod 16)]"

function hex_len :: "nat \<Rightarrow> nat" where
  "hex_len i = (if i < 16 then 1 else Suc (hex_len (i div 16)))"
  by pat_completeness auto
termination
  by (relation "measure id") auto

declare hex_len.simps [simp del]

definition hex :: "nat \<Rightarrow> string" where
  "hex i = hex_digits (hex_len i) i"

text \<open>
  Modelled from the spec: \<^verbatim>\<open>int_to_hex\<close>, the little-endian hexadecimal string of \<open>i\<close>,
  padded with zeros to \<open>length\<close> bytes. (\<^verbatim>\<open>rstrip('L')\<close> removes nothing from a string
  of hexadecimal digits.)
\<close>

definition int_to_hex :: "nat \<Rightarrow> nat \<Rightarrow> error + string" where
  "int_to_hex i len =
     (let s = hex i;
          s = replicate (2 * len - length s) (CHR ''0'') @ s
      in rev_hex s)"

section \<open>\<^verbatim>\<open>lib/lnbase.py\<close>\<close>

subsection \<open>Integer encoding\<close>

text \<open>
  \<^verbatim>\<open>decode\<close> is only ever applied to \<^verbatim>\<open>bytes\<close> (the decrypted length field), so the
  branch for a \<^verbatim>\<open>str\<close> argument is excluded by the type. The loop multiplies the
  result by 256 and adds the first byte until the string is empty.
\<close>

fun decode_loop :: "nat \<Rightarrow> bytes \<Rightarrow> nat" where
  "decode_loop result [] = result"
| "decode_loop result (b # string) = decode_loop (result * 256 + unat b) string"

definition decode :: "bytes \<Rightarrow> nat" where
  "decode string = decode_loop 0 string"

definition encode :: "nat \<Rightarrow> nat \<Rightarrow> error + bytes" where
  "encode n s =
     (case int_to_hex n s of Inl e \<Rightarrow> Inl e
      | Inr x \<Rightarrow> (case rev_hex x of Inl e \<Rightarrow> Inl e | Inr y \<Rightarrow> bfh y))"

subsection \<open>Transcript hash\<close>

definition H256 :: "bytes \<Rightarrow> bytes" where
  "H256 data = sha256 data"

definition ascii :: "string \<Rightarrow> bytes" where
  "ascii s = map (\<lambda>c. of_nat (of_char c)) s"

definition prologue :: bytes where
  "prologue = ascii ''lightning''"

definition protocol_name :: bytes where
  "protocol_name = ascii ''Noise_XK_secp256k1_ChaChaPoly_SHA256''"

definition handshake_version :: bytes where
  "handshake_version = [0x00]"

record HandshakeState =
  responder_pub :: bytes
  hs_h :: bytes
  hs_ck :: bytes

text \<open>\<^verbatim>\<open>update\<close> mutates \<^verbatim>\<open>self.h\<close>; the model returns the new state.\<close>

definition update :: "HandshakeState \<Rightarrow> bytes \<Rightarrow> HandshakeState" where
  "update hs data = hs\<lparr>hs_h := H256 (hs_h hs @ data)\<rparr>"

definition HandshakeState_init :: "bytes \<Rightarrow> HandshakeState" where
  "HandshakeState_init pub =
     (let hs = \<lparr>responder_pub = pub, hs_h = H256 protocol_name, hs_ck = H256 protocol_name\<rparr>;
          hs = update hs prologue
      in update hs (responder_pub hs))"

subsection \<open>Authenticated encryption\<close>

definition get_nonce_bytes :: "nat \<Rightarrow> error + bytes" where
  "get_nonce_bytes n =
     (let nb = replicate 4 (0x00 :: byte) in
      case encode n 8 of Inl e \<Rightarrow> Inl e
      | Inr nb2 \<Rightarrow> Inr (nb @ rev nb2))"

definition aead_encrypt :: "bytes \<Rightarrow> nat \<Rightarrow> bytes \<Rightarrow> bytes \<Rightarrow> error + bytes" where
  "aead_encrypt k nonce associated_data data =
     (case get_nonce_bytes nonce of Inl e \<Rightarrow> Inl e
      | Inr nonce_bytes \<Rightarrow> ChaCha20Poly1305_encrypt k nonce_bytes data associated_data)"

definition aead_decrypt :: "bytes \<Rightarrow> nat \<Rightarrow> bytes \<Rightarrow> bytes \<Rightarrow> error + bytes" where
  "aead_decrypt k nonce associated_data data =
     (case get_nonce_bytes nonce of Inl e \<Rightarrow> Inl e
      | Inr nonce_bytes \<Rightarrow> ChaCha20Poly1305_decrypt k nonce_bytes data associated_data)"

subsection \<open>Key derivation\<close>

definition get_bolt8_hkdf :: "bytes \<Rightarrow> bytes \<Rightarrow> error + bytes \<times> bytes" where
  "get_bolt8_hkdf salt ikm =
     (let prk = hmac_sha256 salt ikm in
      if length prk \<noteq> 32 then Inl AssertionError
      else let info = []; T0 = [];
               T1 = hmac_sha256 prk (T0 @ info @ [0x01]);
               T2 = hmac_sha256 prk (T1 @ info @ [0x02])
           in if length (T1 @ T2) \<noteq> 64 then Inl AssertionError else Inr (T1, T2))"

subsection \<open>The elliptic-curve primitive\<close>

text \<open>
  Point arithmetic on secp256k1 and the serialisation of scalars and points are
  imported from \<^verbatim>\<open>electrum.bitcoin\<close> and are not part of this development: the
  functions below take them as a parameter. Each operation may raise.
  \<open>point_mul\<close> stands for the expression \<^verbatim>\<open>pk * s\<close>.
\<close>

record 'pt ec_primitive =
  public_key_from_private_key :: "bytes \<Rightarrow> bool \<Rightarrow> error + string"
  string_to_number :: "bytes \<Rightarrow> error + nat"
  ser_to_point :: "bytes \<Rightarrow> error + 'pt"
  point_mul :: "'pt \<Rightarrow> nat \<Rightarrow> error + 'pt"
  point_to_ser :: "'pt \<Rightarrow> error + bytes"

definition get_ecdh :: "'pt ec_primitive \<Rightarrow> bytes \<Rightarrow> bytes \<Rightarrow> error + bytes" where
  "get_ecdh ec priv pub =
     (case string_to_number ec priv of Inl e \<Rightarrow> Inl e
      | Inr s \<Rightarrow>
     (case ser_to_point ec pub of Inl e \<Rightarrow> Inl e
      | Inr pk \<Rightarrow>
     (case point_mul ec pk s of Inl e \<Rightarrow> Inl e
      | Inr q \<Rightarrow>
     (case point_to_ser ec q of Inl e \<Rightarrow> Inl e
      | Inr pt \<Rightarrow> Inr (H256 pt)))))"

definition privkey_to_pubkey :: "'pt ec_primitive \<Rightarrow> bytes \<Rightarrow> error + bytes" where
  "privkey_to_pubkey ec priv =
     (case public_key_from_private_key ec (take 32 priv) True of Inl e \<Rightarrow> Inl e
      | Inr pub \<Rightarrow> bfh pub)"

definition create_ephemeral_key :: "'pt ec_primitive \<Rightarrow> bytes \<Rightarrow> error + bytes \<times> bytes" where
  "create_ephemeral_key ec privkey =
     (case privkey_to_pubkey ec privkey of Inl e \<Rightarrow> Inl e
      | Inr pub \<Rightarrow> Inr (take 32 privkey, pub))"

subsection \<open>Handshake, act 1\<close>

text \<open>
  \<^verbatim>\<open>act1_initiator_message\<close> mutates the handshake state and may raise half way. The
  model returns the outcome together with the state the object is left in.
\<close>

definition act1_initiator_message ::
  "'pt ec_primitive \<Rightarrow> HandshakeState \<Rightarrow> bytes \<Rightarrow> (error + bytes) \<times> HandshakeState" where
  "act1_initiator_message ec hs my_privkey =
     (case create_ephemeral_key ec my_privkey of Inl e \<Rightarrow> (Inl e, hs)
      | Inr (epriv, epub) \<Rightarrow>
     (let hs = update hs epub in
      case get_ecdh ec epriv (responder_pub hs) of Inl e \<Rightarrow> (Inl e, hs)
      | Inr ss \<Rightarrow>
     (case get_bolt8_hkdf (hs_ck hs) ss of Inl e \<Rightarrow> (Inl e, hs)
      | Inr (ck2, temp_k1) \<Rightarrow>
     (let hs = hs\<lparr>hs_ck := ck2\<rparr> in
      case aead_encrypt temp_k1 0 (hs_h hs) [] of Inl e \<Rightarrow> (Inl e, hs)
      | Inr c \<Rightarrow>
     (let hs = update hs c;
          msg = handshake_version @ epub @ c
      in if length msg \<noteq> 50 then (Inl AssertionError, hs) else (Inr msg, hs))))))"

subsection \<open>Transport framing\<close>

text \<open>
  The writer is the string of all bytes written so far. The \<^verbatim>\<open>print\<close> calls of
  \<^verbatim>\<open>send_message\<close> and \<^verbatim>\<open>read_message\<close> are left out.
\<close>

definition send_message :: "bytes \<Rightarrow> bytes \<Rightarrow> bytes \<Rightarrow> nat \<Rightarrow> error + bytes" where
  "send_message writer msg sk sn =
     (case encode (length msg) 2 of Inl e \<Rightarrow> Inl e
      | Inr l \<Rightarrow>
     (case aead_encrypt sk sn [] l of Inl e \<Rightarrow> Inl e
      | Inr lc \<Rightarrow>
     (case aead_encrypt sk (sn + 1) [] msg of Inl e \<Rightarrow> Inl e
      | Inr c \<Rightarrow>
        if length lc \<noteq> 18 then Inl AssertionError
        else if length c \<noteq> length msg + 16 then Inl AssertionError
        else Inr (writer @ lc @ c))))"

text \<open>
  An \<^verbatim>\<open>asyncio.StreamReader\<close>: the bytes already buffered, and the chunks of data
  that the transport will deliver, in order; after the last of them the stream is at
  end of file. \<^verbatim>\<open>read(n)\<close> waits for the next chunk when the buffer is empty (at end of
  file it does not wait), then takes at most \<open>n\<close> bytes off the buffer. The transport
  never delivers an empty chunk.
\<close>

record reader =
  rd_buffer :: bytes
  rd_pending :: "bytes list"

definition wait_for_data :: "reader \<Rightarrow> reader" where
  "wait_for_data r =
     (case dropWhile (\<lambda>c. c = []) (rd_pending r) of
        [] \<Rightarrow> r\<lparr>rd_pending := []\<rparr>
      | c # cs \<Rightarrow> \<lparr>rd_buffer = c, rd_pending = cs\<rparr>)"

definition reader_read :: "nat \<Rightarrow> reader \<Rightarrow> bytes \<times> reader" where
  "reader_read n r =
     (let r = (if rd_buffer r = [] then wait_for_data r else r)
      in (take n (rd_buffer r), r\<lparr>rd_buffer := drop n (rd_buffer r)\<rparr>))"

text \<open>
  The loop of \<^verbatim>\<open>read_message\<close>, with the bytes accumulated so far as an argument.
  It does not return when the stream ends inside a frame whose length field
  verifies: \<^verbatim>\<open>read\<close> then returns nothing, again and again.  The result holds the
  reader as the call leaves it, whether it returns or raises.
\<close>

partial_function (option) read_message_loop ::
  "reader \<Rightarrow> bytes \<Rightarrow> nat \<Rightarrow> bytes \<Rightarrow> ((error + bytes) \<times> reader) option" where
  "read_message_loop reader rk rn rspns =
     (case reader_read (2 ^ 10) reader of (data, reader) \<Rightarrow>
     (let rspns = rspns @ data;
          lc = take 18 rspns
      in (case aead_decrypt rk rn [] lc of Inl e \<Rightarrow> Some (Inl e, reader)
          | Inr l \<Rightarrow>
         (let len = decode l in
          if length rspns < 18 + len + 16 then read_message_loop reader rk rn rspns
          else (let c = take (len + 16) (drop 18 rspns)
                in (case aead_decrypt rk (rn + 1) [] c of Inl e \<Rightarrow> Some (Inl e, reader)
                    | Inr msg \<Rightarrow> Some (Inr msg, reader)))))))"

declare read_message_loop.simps [code]

definition read_message :: "reader \<Rightarrow> bytes \<Rightarrow> nat \<Rightarrow> ((error + bytes) \<times> reader) option" where
  "read_message reader rk rn = read_message_loop reader rk rn []"

subsection \<open>\<^verbatim>\<open>main_loop\<close>\<close>

text \<open>
  What \<^verbatim>\<open>main_loop\<close> works on: the handshake state, the two ends of the connection
  that \<^verbatim>\<open>asyncio.open_connection\<close> returned, the nonce counters \<^verbatim>\<open>sn\<close> and \<^verbatim>\<open>rn\<close>
  (local variables, assigned at \<^verbatim>\<open># init counters\<close>; the record holds 0 before), and
  the messages handed to \<^verbatim>\<open>process_message\<close>, whose body is one \<^verbatim>\<open>print\<close>.
  Every step returns its outcome together with the state it leaves behind.
\<close>

record conn =
  c_hs :: HandshakeState
  c_reader :: reader
  c_writer :: bytes
  c_sn :: nat
  c_rn :: nat
  c_processed :: "bytes list"
  c_closed :: bool

definition process_message :: "bytes \<Rightarrow> conn \<Rightarrow> conn" where
  "process_message message st = st\<lparr>c_processed := c_processed st @ [message]\<rparr>"

text \<open>
  Lines 160 to 168: the act 1 message is written, the reply is read with a single
  \<^verbatim>\<open>read(2**10)\<close> and cut into version byte, ephemeral key and tag.
\<close>

definition handshake_act1 ::
  "'pt ec_primitive \<Rightarrow> bytes \<Rightarrow> conn \<Rightarrow> (error + bytes \<times> bytes) \<times> conn" where
  "handshake_act1 ec my_privkey st =
     (case act1_initiator_message ec (c_hs st) my_privkey of
        (Inl e, hs) \<Rightarrow> (Inl e, st\<lparr>c_hs := hs\<rparr>)
      | (Inr msg, hs) \<Rightarrow>
     (let st = st\<lparr>c_hs := hs, c_writer := c_writer st @ msg\<rparr> in
      case reader_read (2 ^ 10) (c_reader st) of (rspns, rd) \<Rightarrow>
     (let st = st\<lparr>c_reader := rd\<rparr> in
      if length rspns \<noteq> 50 then (Inl AssertionError, st)
      else (let hver = rspns ! 0;
                alice_epub = take 33 (drop 1 rspns);
                tag = drop 34 rspns
            in if [hver] \<noteq> handshake_version then (Inl AssertionError, st)
               else (Inr (alice_epub, tag), st)))))"

text \<open>Lines 170 to 177. The result is \<^verbatim>\<open>temp_k2\<close>.\<close>

definition handshake_act2 ::
  "'pt ec_primitive \<Rightarrow> bytes \<Rightarrow> bytes \<Rightarrow> bytes \<Rightarrow> conn \<Rightarrow> (error + bytes) \<times> conn" where
  "handshake_act2 ec my_privkey alice_epub tag st =
     (let st = st\<lparr>c_hs := update (c_hs st) alice_epub\<rparr> in
      case create_ephemeral_key ec my_privkey of Inl e \<Rightarrow> (Inl e, st)
      | Inr (myepriv, myepub) \<Rightarrow>
     (case get_ecdh ec myepriv alice_epub of Inl e \<Rightarrow> (Inl e, st)
      | Inr ss \<Rightarrow>
     (case get_bolt8_hkdf (hs_ck (c_hs st)) ss of Inl e \<Rightarrow> (Inl e, st)
      | Inr (ck, temp_k2) \<Rightarrow>
     (let st = st\<lparr>c_hs := (c_hs st)\<lparr>hs_ck := ck\<rparr>\<rparr> in
      case aead_decrypt temp_k2 0 (hs_h (c_hs st)) tag of Inl e \<Rightarrow> (Inl e, st)
      | Inr p \<Rightarrow> (Inr temp_k2, st\<lparr>c_hs := update (c_hs st) tag\<rparr>)))))"

text \<open>Lines 179 to 189. The result is the pair of transport keys \<^verbatim>\<open>(sk, rk)\<close>.\<close>

definition handshake_act3 ::
  "'pt ec_primitive \<Rightarrow> bytes \<Rightarrow> bytes \<Rightarrow> bytes \<Rightarrow> conn \<Rightarrow> (error + bytes \<times> bytes) \<times> conn" where
  "handshake_act3 ec my_privkey alice_epub temp_k2 st =
     (case privkey_to_pubkey ec my_privkey of Inl e \<Rightarrow> (Inl e, st)
      | Inr my_pubkey \<Rightarrow>
     (case aead_encrypt temp_k2 1 (hs_h (c_hs st)) my_pubkey of Inl e \<Rightarrow> (Inl e, st)
      | Inr c \<Rightarrow>
     (let st = st\<lparr>c_hs := update (c_hs st) c\<rparr> in
      case get_ecdh ec (take 32 my_privkey) alice_epub of Inl e \<Rightarrow> (Inl e, st)
      | Inr ss \<Rightarrow>
     (case get_bolt8_hkdf (hs_ck (c_hs st)) ss of Inl e \<Rightarrow> (Inl e, st)
      | Inr (ck, temp_k3) \<Rightarrow>
     (let st = st\<lparr>c_hs := (c_hs st)\<lparr>hs_ck := ck\<rparr>\<rparr> in
      case aead_encrypt temp_k3 0 (hs_h (c_hs st)) [] of Inl e \<Rightarrow> (Inl e, st)
      | Inr t \<Rightarrow>
     (case get_bolt8_hkdf (hs_ck (c_hs st)) [] of Inl e \<Rightarrow> (Inl e, st)
      | Inr (sk, rk) \<Rightarrow>
     (let msg = handshake_version @ c @ t
      in (Inr (sk, rk), st\<lparr>c_writer := c_writer st @ msg\<rparr>))))))))"

text \<open>The two messages that \<^verbatim>\<open>main_loop\<close> sends (lines 201 and 206 to 209).\<close>

definition init_msg :: "error + bytes" where
  "init_msg =
     (case encode 16 2 of Inl e \<Rightarrow> Inl e | Inr a \<Rightarrow>
     (case encode 0 2 of Inl e \<Rightarrow> Inl e | Inr b \<Rightarrow>
     (case encode 0 2 of Inl e \<Rightarrow> Inl e | Inr c \<Rightarrow> Inr (a @ b @ c))))"

definition ping_msg :: "error + bytes" where
  "ping_msg =
     (let msg_type = 18; num_pong_bytes = 4; byteslen = 4 in
      case encode msg_type 2 of Inl e \<Rightarrow> Inl e | Inr a \<Rightarrow>
     (case encode num_pong_bytes 2 of Inl e \<Rightarrow> Inl e | Inr b \<Rightarrow>
     (case encode byteslen 2 of Inl e \<Rightarrow> Inl e | Inr c \<Rightarrow>
        Inr (a @ b @ c @ replicate byteslen 0x00))))"

text \<open>The steps of lines 195 to 216: reading one message and sending one message.\<close>

definition read_step :: "bytes \<Rightarrow> conn \<Rightarrow> ((error + unit) \<times> conn) option" where
  "read_step rk st =
     (case read_message (c_reader st) rk (c_rn st) of None \<Rightarrow> None
      | Some (Inl e, rd) \<Rightarrow> Some (Inl e, st\<lparr>c_reader := rd\<rparr>)
      | Some (Inr msg, rd) \<Rightarrow>
          (let st = process_message msg (st\<lparr>c_reader := rd\<rparr>)
           in Some (Inr (), st\<lparr>c_rn := c_rn st + 2\<rparr>)))"

definition send_step :: "error + bytes \<Rightarrow> bytes \<Rightarrow> conn \<Rightarrow> (error + unit) \<times> conn" where
  "send_step m sk st =
     (case m of Inl e \<Rightarrow> (Inl e, st)
      | Inr msg \<Rightarrow>
     (case send_message (c_writer st) msg sk (c_sn st) of Inl e \<Rightarrow> (Inl e, st)
      | Inr w \<Rightarrow> (Inr (), st\<lparr>c_writer := w, c_sn := c_sn st + 2\<rparr>)))"

text \<open>Lines 191 to 219.\<close>

definition transport :: "bytes \<Rightarrow> bytes \<Rightarrow> conn \<Rightarrow> ((error + unit) \<times> conn) option" where
  "transport sk rk st =
     (let st = st\<lparr>c_sn := 0, c_rn := 0\<rparr> in
      case read_step rk st of None \<Rightarrow> None
      | Some (Inl e, st) \<Rightarrow> Some (Inl e, st)
      | Some (Inr u, st) \<Rightarrow>
     (case send_step init_msg sk st of (Inl e, st) \<Rightarrow> Some (Inl e, st)
      | (Inr u, st) \<Rightarrow>
     (case send_step ping_msg sk st of (Inl e, st) \<Rightarrow> Some (Inl e, st)
      | (Inr u, st) \<Rightarrow>
     (case read_step rk st of None \<Rightarrow> None
      | Some (Inl e, st) \<Rightarrow> Some (Inl e, st)
      | Some (Inr u, st) \<Rightarrow> Some (Inr (), st\<lparr>c_closed := True\<rparr>)))))"

text \<open>
  The connection that \<^verbatim>\<open>asyncio.open_connection\<close> returns is the reader given as an
  argument and an empty writer. \<open>handshake\<close> is lines 158 to 189 of \<^verbatim>\<open>main_loop\<close>,
  \<open>transport\<close> the rest.
\<close>

definition handshake ::
  "'pt ec_primitive \<Rightarrow> bytes \<Rightarrow> bytes \<Rightarrow> reader \<Rightarrow> (error + bytes \<times> bytes) \<times> conn" where
  "handshake ec my_privkey pubkey reader =
     (let st = \<lparr>c_hs = HandshakeState_init pubkey, c_reader = reader, c_writer = [],
                 c_sn = 0, c_rn = 0, c_processed = [], c_closed = False\<rparr> in
      case handshake_act1 ec my_privkey st of (Inl e, st) \<Rightarrow> (Inl e, st)
      | (Inr (alice_epub, tag), st) \<Rightarrow>
     (case handshake_act2 ec my_privkey alice_epub tag st of (Inl e, st) \<Rightarrow> (Inl e, st)
      | (Inr temp_k2, st) \<Rightarrow> handshake_act3 ec my_privkey alice_epub temp_k2 st))"

definition main_loop ::
  "'pt ec_primitive \<Rightarrow> bytes \<Rightarrow> bytes \<Rightarrow> reader \<Rightarrow> ((error + unit) \<times> conn) option" where
  "main_loop ec my_privkey pubkey reader =
     (case handshake ec my_privkey pubkey reader of (Inl e, st) \<Rightarrow> Some (Inl e, st)
      | (Inr (sk, rk), st) \<Rightarrow> transport sk rk st)"

subsection \<open>The calls of the cipher\<close>












subsection \<open>The sample run\<close>

text \<open>
  The inputs of the run in the \<^verbatim>\<open>__main__\<close> block: the private key
  \<^verbatim>\<open>b"\x21"*32 + b"\x01"\<close> and the public key of the first node of \<^verbatim>\<open>node_list\<close>.
  \<open>sample_alice_epub\<close> is an ephemeral public key for the peer (the point of the
  scalar \<open>22 .. 22\<close>).
\<close>

definition sample_privkey :: bytes where
  "sample_privkey = replicate 32 0x21 @ [0x01]"

definition sample_pubkey :: bytes where
  "sample_pubkey =
     [0x03, 0x83, 0x70, 0xf0, 0xe7, 0xa0, 0x3e, 0xde, 0xd3, 0xe1, 0xd4,
      0x1d, 0xc0, 0x81, 0x08, 0x4a, 0x87, 0xf0, 0xaf, 0xa1, 0xc5, 0xb2,
      0x20, 0x90, 0xb4, 0xf3, 0xab, 0xb3, 0x91, 0xeb, 0x15, 0xd8, 0xff]"

definition sample_alice_epub :: bytes where
  "sample_alice_epub =
     [0x02, 0x46, 0x6d, 0x7f, 0xca, 0xe5, 0x63, 0xe5, 0xcb, 0x09, 0xa0,
      0xd1, 0x87, 0x0b, 0xb5, 0x80, 0x34, 0x48, 0x04, 0x61, 0x78, 0x79,
      0xa1, 0x49, 0x49, 0xcf, 0x22, 0x28, 0x5f, 0x1b, 0xae, 0x3f, 0x27]"

text \<open>
  The elliptic-curve primitive restricted to the operations of the sample run, with the
  values that secp256k1 gives: the public key of the scalar \<open>21 .. 21\<close>, and its
  products with the two points above. Points are represented by their compressed
  serialisation. \<^verbatim>\<open>string_to_number\<close> reads a byte string as a big-endian number and
  raises on the empty string.
\<close>

definition sample_ec :: "bytes ec_primitive" where
  "sample_ec =
     \<lparr>public_key_from_private_key =
        (\<lambda>k compressed.
           if k = replicate 32 0x21 \<and> compressed
           then Inr ''028d7500dd4c12685d1f568b4c2b5048e8534b873319f3a8daa612b469132ec7f7''
           else Inl KeyFailure),
      string_to_number = (\<lambda>b. if b = [] then Inl ValueError else Inr (decode b)),
      ser_to_point =
        (\<lambda>b. if b = sample_pubkey \<or> b = sample_alice_epub then Inr b else Inl KeyFailure),
      point_mul =
        (\<lambda>pk s.
           if s = decode (replicate 32 0x21) \<and> pk = sample_pubkey then Inr
     [0x03, 0x9a, 0x82, 0x71, 0x94, 0x42, 0x4b, 0xba, 0x95, 0x39, 0x97,
      0x6e, 0x87, 0x6e, 0xb9, 0xe3, 0xdb, 0x0b, 0x17, 0xe3, 0xcc, 0x0a,
      0xa7, 0xd5, 0xb2, 0xb5, 0xca, 0xcf, 0xf4, 0xbf, 0xb1, 0xd8, 0x75]
           else if s = decode (replicate 32 0x21) \<and> pk = sample_alice_epub then Inr
     [0x03, 0xe1, 0xd4, 0xab, 0x05, 0x53, 0x82, 0x19, 0x7e, 0xf4, 0x18,
      0xae, 0x4b, 0x32, 0x11, 0x1d, 0x8f, 0x65, 0xa2, 0x22, 0x50, 0x85,
      0x1c, 0x24, 0x60, 0xc1, 0x13, 0x98, 0xa1, 0xae, 0x38, 0xf3, 0x9b]
           else Inl KeyFailure),
      point_to_ser = Inr\<rparr>"

text \<open>
  What an honest peer sends in the sample run: the act 2 reply for the ephemeral key
  \<open>sample_alice_epub\<close>, then two messages framed under the key that is the initiator's
  receiving key, at the nonces 0 and 2. The keys follow the chain of \<^verbatim>\<open>get_bolt8_hkdf\<close>
  calls of the three acts.
\<close>

definition hkdf_keys :: "bytes \<Rightarrow> bytes \<Rightarrow> bytes \<times> bytes" where
  "hkdf_keys salt ikm = (case get_bolt8_hkdf salt ikm of Inr ks \<Rightarrow> ks | Inl e \<Rightarrow> ([], []))"

definition written :: "error + bytes \<Rightarrow> bytes" where
  "written r = (case r of Inr bs \<Rightarrow> bs | Inl e \<Rightarrow> [])"

definition sample_ss1 :: bytes where
  "sample_ss1 = written (get_ecdh sample_ec (take 32 sample_privkey) sample_pubkey)"

definition sample_ss2 :: bytes where
  "sample_ss2 = written (get_ecdh sample_ec (take 32 sample_privkey) sample_alice_epub)"

definition sample_ck1 :: bytes where
  "sample_ck1 = fst (hkdf_keys (H256 protocol_name) sample_ss1)"

definition sample_ck2 :: bytes where
  "sample_ck2 = fst (hkdf_keys sample_ck1 sample_ss2)"

definition sample_temp_k2 :: bytes where
  "sample_temp_k2 = snd (hkdf_keys sample_ck1 sample_ss2)"


definition sample_act1_msg :: bytes where
  "sample_act1_msg =
     written (fst (act1_initiator_message sample_ec (HandshakeState_init sample_pubkey) sample_privkey))"

definition sample_hs1 :: HandshakeState where
  "sample_hs1 =
     snd (act1_initiator_message sample_ec (HandshakeState_init sample_pubkey) sample_privkey)"

definition sample_act2_reply :: bytes where
  "sample_act2_reply =
     handshake_version @ sample_alice_epub
     @ written (aead_encrypt sample_temp_k2 0 (hs_h (update sample_hs1 sample_alice_epub)) [])"




section \<open>Integer encoding\<close>

lemma hexval_hexdigit: "d < 16 \<Longrightarrow> hexval (hexdigit d) = Some d"
  by (simp add: hexval_def hexdigit_def)

lemma is_space_hexdigit: "d < 16 \<Longrightarrow> \<not> is_space (hexdigit d)"
  by (simp add: is_space_def hexdigit_def)

lemma byte_of_nibbles: "of_nat (16 * (unat b div 16) + unat b mod 16) = (b :: byte)"
  by simp

lemma byte_nibble_lt: "unat (b :: byte) div 16 < 16"
  using unsigned_less [of b, where ?'a = nat] by simp

lemma bfh_bh2u: "bfh (bh2u bs) = Inr bs"
  by (induction bs) (simp_all add: bh2u_def hexval_hexdigit is_space_hexdigit byte_of_nibbles byte_nibble_lt)

lemma hex_len_pos: "0 < hex_len i"
  by (simp add: hex_len.simps [of i])

lemma hex_len_le: "0 < k \<Longrightarrow> hex_len i \<le> k \<longleftrightarrow> i < 16 ^ k"
proof (induction i arbitrary: k rule: hex_len.induct)
  case (1 i)
  show ?case
  proof (cases "i < 16")
    case True
    have "(16::nat) ^ 1 \<le> 16 ^ k" using "1.prems" by (intro power_increasing) auto
    with True "1.prems" show ?thesis by (simp add: hex_len.simps [of i])
  next
    case False
    show ?thesis
    proof (cases k)
      case 0 with "1.prems" show ?thesis by simp
    next
      case (Suc k')
      show ?thesis
      proof (cases "k' = 0")
        case True
        with False Suc hex_len_pos [of "i div 16"] show ?thesis by (simp add: hex_len.simps [of i])
      next
        case kpos: False
        with "1.IH" [of k'] False have "hex_len (i div 16) \<le> k' \<longleftrightarrow> i div 16 < 16 ^ k'" by simp
        also have "\<dots> \<longleftrightarrow> i < 16 ^ Suc k'" by (simp add: less_mult_imp_div_less div_less_iff_less_mult mult.commute)
        finally show ?thesis using False Suc by (simp add: hex_len.simps [of i])
      qed
    qed
  qed
qed

lemma hex_digits_pad: "i < 16 ^ k \<Longrightarrow> hex_digits (k + m) i = replicate m (CHR ''0'') @ hex_digits k i"
proof (induction k arbitrary: i)
  case 0
  then have "i = 0" by simp
  have c0: "char_of (48::nat) = CHR ''0''" by code_simp
  have "hex_digits m 0 = replicate m (CHR ''0'')"
    by (induction m) (simp_all add: hexdigit_def replicate_append_same c0)
  with \<open>i = 0\<close> show ?case by simp
next
  case (Suc k)
  then have "i div 16 < 16 ^ k" by (simp add: less_mult_imp_div_less mult.commute)
  from Suc.IH [OF this] show ?case by simp
qed

lemma length_hex_digits: "length (hex_digits k i) = k"
  by (induction k arbitrary: i) simp_all

lemma padded_hex: 
  assumes "0 < len" "n < 256 ^ len"
  shows "replicate (2 * len - length (hex n)) (CHR ''0'') @ hex n = hex_digits (2 * len) n"
proof -
  have n16: "n < 16 ^ (2 * len)" using assms by (simp add: power_mult)
  then have le: "hex_len n \<le> 2 * len" using assms hex_len_le [of "2 * len" n] by simp
  have "n < 16 ^ hex_len n" using hex_len_le [of "hex_len n" n] hex_len_pos by simp
  note pad = hex_digits_pad [OF this, of "2 * len - hex_len n"]
  have e: "hex_len n + (2 * len - hex_len n) = 2 * len" using le by simp
  show ?thesis unfolding hex_def length_hex_digits using pad unfolding e by (rule sym)
qed

lemma nat_le_Suc: "nat_le (Suc len) n = of_nat n # nat_le len (n div 256)"
proof -
  have "[0..<Suc len] = 0 # [Suc 0..<Suc len]" by (rule upt_conv_Cons) simp
  then have e: "[0..<Suc len] = 0 # map Suc [0..<len]" by (simp only: map_Suc_upt)
  have "nat_le (Suc len) n = map (\<lambda>i. of_nat (n div 256 ^ i)) (0 # map Suc [0..<len])"
    unfolding nat_le_def e ..
  also have "\<dots> = of_nat n # map (\<lambda>i. of_nat (n div 256 ^ Suc i)) [0..<len]"
    by (simp add: comp_def del: upt_Suc power_Suc)
  also have "\<dots> = of_nat n # nat_le len (n div 256)"
    unfolding nat_le_def by (simp add: div_mult2_eq del: upt_Suc)
  finally show ?thesis .
qed

lemma length_nat_le: "length (nat_le count n) = count"
  by (simp add: nat_le_def)

lemma nibbles_of_mod: "(n::nat) mod 256 div 16 = n div 16 mod 16" "n mod 256 mod 16 = n mod 16"
proof -
  have "n mod (16 * 16) = 16 * (n div 16 mod 16) + n mod 16" by (rule mod_mult2_eq)
  then have e: "n mod 256 = 16 * (n div 16 mod 16) + n mod 16" by simp
  show "n mod 256 div 16 = n div 16 mod 16" unfolding e by simp
  show "n mod 256 mod 16 = n mod 16" unfolding e by simp
qed

lemma hex_digits_bh2u: "hex_digits (2 * len) n = bh2u (nat_be len n)"
proof (induction len arbitrary: n)
  case 0 show ?case by (simp add: bh2u_def nat_be_def nat_le_def)
next
  case (Suc len)
  have be: "nat_be (Suc len) n = nat_be len (n div 256) @ [of_nat n]"
    by (simp add: nat_be_def nat_le_Suc)
  have u: "unat (of_nat n :: byte) = n mod 256" by (simp add: unat_of_nat)
  have "n div (16 * 16) = n div 16 div 16" by (rule div_mult2_eq)
  then have d: "n div 16 div 16 = n div 256" by simp
  have "hex_digits (2 * Suc len) n = hex_digits (2 * len) (n div 256) @ [hexdigit (n div 16 mod 16), hexdigit (n mod 16)]"
    by (simp add: d)
  also have "\<dots> = bh2u (nat_be len (n div 256)) @ [hexdigit (n div 16 mod 16), hexdigit (n mod 16)]"
    unfolding Suc.IH ..
  also have "\<dots> = bh2u (nat_be (Suc len) n)"
  proof -
    show ?thesis by (simp add: be bh2u_def u nibbles_of_mod)
  qed
  finally show ?case .
qed

lemma bh2u_rev_hex: "rev_hex (bh2u bs) = Inr (bh2u (rev bs))"
  by (simp add: rev_hex_def bfh_bh2u)

lemma encode_be:
  assumes "0 < s" "n < 256 ^ s"
  shows "encode n s = Inr (nat_be s n)"
proof -
  have "int_to_hex n s = rev_hex (bh2u (nat_be s n))"
    unfolding int_to_hex_def Let_def padded_hex [OF assms] hex_digits_bh2u ..
  then show ?thesis
    by (simp add: encode_def bh2u_rev_hex bfh_bh2u)
qed


lemma le_nat_Cons: "le_nat (b # bs) = unat b + 256 * le_nat bs"
  by (simp add: le_nat_def)

lemma le_nat_nat_le: "n < 256 ^ k \<Longrightarrow> le_nat (nat_le k n) = n"
proof (induction k arbitrary: n)
  case 0 then show ?case by (simp add: le_nat_def nat_le_def)
next
  case (Suc k)
  then have "n div 256 < 256 ^ k" by (simp add: less_mult_imp_div_less mult.commute)
  then have "le_nat (nat_le k (n div 256)) = n div 256" by (rule Suc.IH)
  then show ?case by (simp add: nat_le_Suc le_nat_Cons unat_of_nat)
qed

lemma decode_loop_snoc: "decode_loop acc (xs @ [b]) = decode_loop acc xs * 256 + unat b"
  by (induction xs arbitrary: acc) simp_all

lemma decode_rev: "decode (rev bs) = le_nat bs"
  by (induction bs) (simp_all add: decode_def decode_loop_snoc le_nat_Cons le_nat_def)

lemma decode_nat_be: "n < 256 ^ k \<Longrightarrow> decode (nat_be k n) = n"
  by (simp add: nat_be_def decode_rev le_nat_nat_le)



section \<open>Lengths and inverses of the cryptographic primitives\<close>

lemma length_sha256_digest: "length (sha256_digest st) = 32"
proof -
  obtain a b c d e f g h where "st = (a, b, c, d, e, f, g, h)" by (metis surj_pair)
  then show ?thesis by (simp add: word32_be_def)
qed

lemma length_sha256: "length (sha256 m) = 32"
  by (simp add: sha256_def Let_def length_sha256_digest)

lemma length_hmac_sha256: "length (hmac_sha256 key msg) = 32"
  by (simp add: hmac_sha256_def Let_def length_sha256)

lemma length_split_blocks: "length (split_blocks sz k xs) = k"
  by (induction k arbitrary: xs) simp_all

lemma length_quarter_round: "length (quarter_round i j k l st) = length st"
  by (simp add: quarter_round_def Let_def)

lemma length_double_round: "length (double_round st) = length st"
  by (simp add: double_round_def length_quarter_round)

lemma length_double_rounds: "length ((double_round ^^ n) st) = length st"
  by (induction n) (simp_all add: length_double_round)

lemma length_concat_word32_le: "length (concat (map word32_le ws)) = 4 * length ws"
  by (induction ws) (simp_all add: word32_le_def)

lemma length_chacha20_block: "length (chacha20_block key counter nonce) = 64"
proof -
  define st where "st = [0x61707865, 0x3320646e, 0x79622d32, 0x6b206574]
               @ map le_word32 (split_blocks 4 8 key) @ [counter]
               @ map le_word32 (split_blocks 4 3 nonce)"
  have "length st = 16" by (simp add: st_def length_split_blocks)
  then have "length (map2 (+) ((double_round ^^ 10) st) st) = 16"
    by (simp add: length_double_rounds)
  then have "length (concat (map word32_le (map2 (+) ((double_round ^^ 10) st) st))) = 64"
    by (simp only: length_concat_word32_le)
  then show ?thesis by (simp only: chacha20_block_def Let_def st_def)
qed

lemma length_chacha20_keystream: "length (chacha20_keystream key counter nonce n) = 64 * n"
  unfolding chacha20_keystream_def
  by (induction n) (simp_all add: length_chacha20_block)

lemma length_chacha20_encrypt: "length (chacha20_encrypt key counter nonce data) = length data"
  by (simp add: chacha20_encrypt_def length_chacha20_keystream)

lemma map2_xor_cancel: "length xs \<le> length ks \<Longrightarrow> map2 (XOR) (map2 (XOR) xs ks) ks = (xs :: bytes)"
proof (induction xs arbitrary: ks)
  case Nil show ?case by simp
next
  case (Cons x xs)
  then obtain k ks' where "ks = k # ks'" by (cases ks) auto
  with Cons show ?case by (simp add: xor.assoc)
qed

lemma chacha20_encrypt_involution:
  "chacha20_encrypt key counter nonce (chacha20_encrypt key counter nonce data) = data"
proof -
  have "length data \<le> 64 * ((length data + 63) div 64)" by presburger
  then show ?thesis
    by (simp add: chacha20_encrypt_def length_chacha20_keystream map2_xor_cancel)
qed

lemma length_poly1305_mac: "length (poly1305_mac msg key) = 16"
  by (simp add: poly1305_mac_def Let_def length_nat_le)

lemma length_chacha20_poly1305_tag: "length (chacha20_poly1305_tag key nonce aad ct) = 16"
  by (simp add: chacha20_poly1305_tag_def length_poly1305_mac)

lemma ChaCha20Poly1305_roundtrip:
  assumes "length key = 32" "length nonce = 12"
  shows "ChaCha20Poly1305_decrypt key nonce
           (chacha20_encrypt key 1 nonce data @ chacha20_poly1305_tag key nonce aad (chacha20_encrypt key 1 nonce data)) aad
         = Inr data"
  using assms
  by (simp add: ChaCha20Poly1305_decrypt_def Let_def length_chacha20_poly1305_tag
      length_chacha20_encrypt chacha20_encrypt_involution)

section \<open>Key derivation and authenticated encryption\<close>

lemma get_bolt8_hkdf_lengths:
  "get_bolt8_hkdf salt ikm = Inr (a, b) \<Longrightarrow> length a = 32 \<and> length b = 32"
  by (auto simp: get_bolt8_hkdf_def Let_def length_hmac_sha256)

lemma get_bolt8_hkdf_total: "\<exists>a b. get_bolt8_hkdf salt ikm = Inr (a, b)"
  by (simp add: get_bolt8_hkdf_def Let_def length_hmac_sha256)

lemma hkdf_keys:
  "get_bolt8_hkdf salt ikm = Inr (hkdf_keys salt ikm)"
  "length (fst (hkdf_keys salt ikm)) = 32"
  "length (snd (hkdf_keys salt ikm)) = 32"
proof -
  from get_bolt8_hkdf_total obtain a b where k: "get_bolt8_hkdf salt ikm = Inr (a, b)" by blast
  then show "get_bolt8_hkdf salt ikm = Inr (hkdf_keys salt ikm)" by (simp add: hkdf_keys_def)
  from k get_bolt8_hkdf_lengths [OF k]
  show "length (fst (hkdf_keys salt ikm)) = 32" "length (snd (hkdf_keys salt ikm)) = 32"
    by (simp_all add: hkdf_keys_def)
qed

lemma hkdf_keys_pair:
  "get_bolt8_hkdf salt ikm = Inr (fst (hkdf_keys salt ikm), snd (hkdf_keys salt ikm))"
  by (simp add: hkdf_keys(1))

lemma get_nonce_bytes_le:
  assumes "n < 2 ^ 64"
  shows "get_nonce_bytes n = Inr (replicate 4 0 @ nat_le 8 n)"
proof -
  have "n < 256 ^ 8" using assms by simp
  then have "encode n 8 = Inr (nat_be 8 n)" by (intro encode_be) simp_all
  then show ?thesis by (simp add: get_nonce_bytes_def nat_be_def)
qed

lemma aead_encrypt_eq:
  assumes "length k = 32" "n < 2 ^ 64"
  shows "aead_encrypt k n ad p =
           Inr (chacha20_encrypt k 1 (replicate 4 0 @ nat_le 8 n) p
                @ chacha20_poly1305_tag k (replicate 4 0 @ nat_le 8 n) ad
                    (chacha20_encrypt k 1 (replicate 4 0 @ nat_le 8 n) p))"
  using assms
  by (simp add: aead_encrypt_def get_nonce_bytes_le ChaCha20Poly1305_encrypt_def length_nat_le Let_def)

lemma aead_encrypt_length:
  assumes "aead_encrypt k n ad p = Inr c"
  shows "length c = length p + 16"
  using assms
  by (auto simp: aead_encrypt_def ChaCha20Poly1305_encrypt_def Let_def length_chacha20_encrypt
      length_chacha20_poly1305_tag split: sum.splits if_splits)

lemma aead_decrypt_encrypt:
  assumes "aead_encrypt k n ad p = Inr c"
  shows "aead_decrypt k n ad c = Inr p"
proof -
  from assms obtain nb where nb: "get_nonce_bytes n = Inr nb"
    and enc: "ChaCha20Poly1305_encrypt k nb p ad = Inr c"
    by (auto simp: aead_encrypt_def split: sum.splits)
  from enc have len: "length k = 32" "length nb = 12"
    and c: "c = chacha20_encrypt k 1 nb p @ chacha20_poly1305_tag k nb ad (chacha20_encrypt k 1 nb p)"
    by (auto simp: ChaCha20Poly1305_encrypt_def Let_def split: if_splits)
  show ?thesis
    unfolding aead_decrypt_def nb c using ChaCha20Poly1305_roundtrip [OF len] by simp
qed

lemma aead_decrypt_short:
  assumes "length k = 32" "n < 2 ^ 64" "length c < 16"
  shows "aead_decrypt k n ad c = Inl InvalidTag"
  using assms
  by (simp add: aead_decrypt_def get_nonce_bytes_le ChaCha20Poly1305_decrypt_def length_nat_le)





lemma aead_encrypt_hkdf_key:
  assumes "get_bolt8_hkdf salt ikm = Inr (a, b)" "n < 2 ^ 64"
  shows "\<exists>c. aead_encrypt b n ad p = Inr c \<and> length c = length p + 16"
    and "\<exists>c. aead_encrypt a n ad p = Inr c \<and> length c = length p + 16"
proof -
  from get_bolt8_hkdf_lengths [OF assms(1)] have l: "length a = 32" "length b = 32" by auto
  from aead_encrypt_eq [OF l(2) assms(2)] obtain c where c: "aead_encrypt b n ad p = Inr c" by blast
  with aead_encrypt_length [OF c] show "\<exists>c. aead_encrypt b n ad p = Inr c \<and> length c = length p + 16"
    by blast
  from aead_encrypt_eq [OF l(1) assms(2)] obtain c where c: "aead_encrypt a n ad p = Inr c" by blast
  with aead_encrypt_length [OF c] show "\<exists>c. aead_encrypt a n ad p = Inr c \<and> length c = length p + 16"
    by blast
qed

section \<open>Transport framing\<close>

text \<open>What \<^verbatim>\<open>send_message\<close> writes for a message shorter than \<open>2^16\<close> bytes.\<close>

lemma send_message_frame:
  assumes "length sk = 32" "sn + 1 < 2 ^ 64" "length msg < 65536"
  shows "\<exists>lc c. aead_encrypt sk sn [] (nat_be 2 (length msg)) = Inr lc \<and> length lc = 18
            \<and> aead_encrypt sk (sn + 1) [] msg = Inr c \<and> length c = length msg + 16
            \<and> send_message writer msg sk sn = Inr (writer @ lc @ c)"
proof -
  have "length msg < 256 ^ 2" using assms(3) by simp
  then have l: "encode (length msg) 2 = Inr (nat_be 2 (length msg))" by (intro encode_be) simp_all
  have "sn < 2 ^ 64" using assms(2) by simp
  from aead_encrypt_eq [OF assms(1) this] obtain lc
    where lc: "aead_encrypt sk sn [] (nat_be 2 (length msg)) = Inr lc" by blast
  from aead_encrypt_eq [OF assms(1,2)] obtain c
    where c: "aead_encrypt sk (sn + 1) [] msg = Inr c" by blast
  have "length lc = 18" using aead_encrypt_length [OF lc] by (simp add: nat_be_def length_nat_le)
  moreover have "length c = length msg + 16" using aead_encrypt_length [OF c] .
  ultimately show ?thesis using l lc c by (simp add: send_message_def)
qed


lemma reader_read_one_chunk:
  assumes "chunk \<noteq> []" "length chunk \<le> 1024"
  shows "reader_read (2 ^ 10) \<lparr>rd_buffer = [], rd_pending = chunk # chunks\<rparr>
           = (chunk, \<lparr>rd_buffer = [], rd_pending = chunks\<rparr>)"
  using assms by (simp add: reader_read_def wait_for_data_def)

lemma reader_read_eof:
  "reader_read (2 ^ 10) \<lparr>rd_buffer = [], rd_pending = []\<rparr> = ([], \<lparr>rd_buffer = [], rd_pending = []\<rparr>)"
  by (simp add: reader_read_def wait_for_data_def)

text \<open>The first pass through the loop, when the first read brings a whole frame.\<close>

lemma read_message_whole_frame:
  assumes lc: "aead_encrypt rk rn [] (nat_be 2 (length msg)) = Inr lc"
    and c: "aead_encrypt rk (rn + 1) [] msg = Inr c"
    and len: "length msg < 65536"
    and rd: "reader_read (2 ^ 10) reader = (lc @ c @ rest, reader')"
  shows "read_message reader rk rn = Some (Inr msg, reader')"
proof -
  have l18: "length lc = 18"
    using aead_encrypt_length [OF lc] by (simp add: nat_be_def length_nat_le)
  have lenc: "length c = length msg + 16" using aead_encrypt_length [OF c] .
  have "length msg < 256 ^ 2" using len by simp
  then have dec: "decode (nat_be 2 (length msg)) = length msg" by (rule decode_nat_be)
  have rd': "reader_read 1024 reader = (lc @ c @ rest, reader')" using rd by simp
  have body: "aead_decrypt rk (Suc rn) [] c = Inr msg" using aead_decrypt_encrypt [OF c] by simp
  show ?thesis
    unfolding read_message_def
    by (subst read_message_loop.simps)
       (simp add: rd' l18 lenc dec aead_decrypt_encrypt [OF lc] body)
qed

text \<open>The first pass through the loop, when the first read brings fewer than 16 bytes.\<close>

lemma read_message_short_first_read:
  assumes "length rk = 32" "rn < 2 ^ 64"
    and rd: "reader_read (2 ^ 10) reader = (data, reader')"
    and short: "length data < 16"
  shows "read_message reader rk rn = Some (Inl InvalidTag, reader')"
proof -
  have "aead_decrypt rk rn [] (take 18 data) = Inl InvalidTag"
    using assms(1,2) short by (intro aead_decrypt_short) simp_all
  moreover have "reader_read 1024 reader = (data, reader')" using rd by simp
  ultimately show ?thesis
    unfolding read_message_def
    by (subst read_message_loop.simps) simp
qed

section \<open>The three acts of the handshake\<close>

lemma responder_pub_init: "responder_pub (HandshakeState_init pub) = pub"
  by (simp add: HandshakeState_init_def Let_def update_def)

lemma hs_ck_update: "hs_ck (update hs data) = hs_ck hs"
  by (simp add: update_def)

lemma hs_ck_init: "hs_ck (HandshakeState_init pub) = H256 protocol_name"
  by (simp add: HandshakeState_init_def Let_def update_def)

lemma create_ephemeral_key_returns:
  assumes "create_ephemeral_key ec privkey = Inr (epriv, epub)"
  shows "epriv = take 32 privkey \<and> privkey_to_pubkey ec privkey = Inr epub"
  using assms by (cases "privkey_to_pubkey ec privkey") (simp_all add: create_ephemeral_key_def)

lemma act1_initiator_message_ok:
  assumes key: "create_ephemeral_key ec my_privkey = Inr (epriv, epub)"
    and len: "length epub = 33"
    and ecdh: "get_ecdh ec epriv (responder_pub hs) = Inr ss"
    and kdf: "get_bolt8_hkdf (hs_ck hs) ss = Inr (ck2, temp_k1)"
    and tag: "aead_encrypt temp_k1 0 (hs_h (update hs epub)) [] = Inr c"
  shows "act1_initiator_message ec hs my_privkey =
           (Inr ([0x00] @ epub @ c), update ((update hs epub)\<lparr>hs_ck := ck2\<rparr>) c)"
proof -
  have "length c = 16" using aead_encrypt_length [OF tag] by simp
  then show ?thesis
    using key len ecdh kdf tag
    by (simp add: act1_initiator_message_def Let_def update_def handshake_version_def)
qed

lemma act1_initiator_message_returns:
  assumes "act1_initiator_message ec hs my_privkey = (Inr msg, hs')"
  shows "\<exists>epriv epub ss ck2 temp_k1 c.
           create_ephemeral_key ec my_privkey = Inr (epriv, epub)
         \<and> get_ecdh ec epriv (responder_pub hs) = Inr ss
         \<and> get_bolt8_hkdf (hs_ck hs) ss = Inr (ck2, temp_k1)
         \<and> aead_encrypt temp_k1 0 (hs_h (update hs epub)) [] = Inr c
         \<and> msg = [0x00] @ epub @ c \<and> length epub = 33 \<and> length c = 16
         \<and> hs' = update ((update hs epub)\<lparr>hs_ck := ck2\<rparr>) c"
proof -
  from assms obtain epriv epub where k: "create_ephemeral_key ec my_privkey = Inr (epriv, epub)"
    by (cases "create_ephemeral_key ec my_privkey") (auto simp: act1_initiator_message_def)
  from assms k obtain ss where e: "get_ecdh ec epriv (responder_pub hs) = Inr ss"
    by (cases "get_ecdh ec epriv (responder_pub hs)")
       (auto simp: act1_initiator_message_def Let_def update_def)
  from get_bolt8_hkdf_total obtain ck2 temp_k1
    where kdf: "get_bolt8_hkdf (hs_ck hs) ss = Inr (ck2, temp_k1)" by blast
  from aead_encrypt_hkdf_key(1) [OF kdf, of 0 "hs_h (update hs epub)" "[]"] obtain c
    where c: "aead_encrypt temp_k1 0 (hs_h (update hs epub)) [] = Inr c" "length c = 16" by auto
  from assms k e kdf c have "length epub = 33 \<and> msg = [0x00] @ epub @ c
      \<and> hs' = update ((update hs epub)\<lparr>hs_ck := ck2\<rparr>) c"
    by (simp add: act1_initiator_message_def Let_def update_def handshake_version_def
        split: if_splits)
  with k e kdf c show ?thesis by blast
qed

lemma act1_initiator_message_length:
  "act1_initiator_message ec hs my_privkey = (Inr msg, hs') \<Longrightarrow> length msg = 50"
  by (auto simp: act1_initiator_message_def Let_def split: sum.splits prod.splits if_splits)

lemma handshake_act1_reply:
  assumes act1: "act1_initiator_message ec (c_hs st) my_privkey = (Inr msg, hs)"
    and rd: "reader_read (2 ^ 10) (c_reader st) = (rspns, rd)"
  shows "handshake_act1 ec my_privkey st =
           (if length rspns \<noteq> 50 \<or> rspns ! 0 \<noteq> 0x00 then Inl AssertionError
            else Inr (take 33 (drop 1 rspns), drop 34 rspns),
            st\<lparr>c_hs := hs, c_writer := c_writer st @ msg, c_reader := rd\<rparr>)"
proof -
  have rd': "reader_read 1024 (c_reader st) = (rspns, rd)" using rd by simp
  show ?thesis
    by (simp add: handshake_act1_def act1 rd' Let_def handshake_version_def)
qed

lemma handshake_act2_ok:
  assumes "create_ephemeral_key ec my_privkey = Inr (myepriv, myepub)"
    and "get_ecdh ec myepriv alice_epub = Inr ss"
    and "get_bolt8_hkdf (hs_ck (c_hs st)) ss = Inr (ck, temp_k2)"
    and "aead_decrypt temp_k2 0 (hs_h (update (c_hs st) alice_epub)) tag = Inr p"
  shows "handshake_act2 ec my_privkey alice_epub tag st =
           (Inr temp_k2, st\<lparr>c_hs := update ((update (c_hs st) alice_epub)\<lparr>hs_ck := ck\<rparr>) tag\<rparr>)"
  using assms by (simp add: handshake_act2_def Let_def hs_ck_update)

lemma handshake_act2_returns:
  assumes "handshake_act2 ec my_privkey alice_epub tag st = (Inr temp_k2, st')"
  shows "\<exists>pub ss ck. create_ephemeral_key ec my_privkey = Inr (take 32 my_privkey, pub)
           \<and> get_ecdh ec (take 32 my_privkey) alice_epub = Inr ss
           \<and> get_bolt8_hkdf (hs_ck (c_hs st)) ss = Inr (ck, temp_k2)"
proof -
  from assms obtain epriv epub where k: "create_ephemeral_key ec my_privkey = Inr (epriv, epub)"
    by (cases "create_ephemeral_key ec my_privkey") (auto simp: handshake_act2_def Let_def)
  from create_ephemeral_key_returns [OF k] have ep: "epriv = take 32 my_privkey" by simp
  from assms k obtain ss where e: "get_ecdh ec epriv alice_epub = Inr ss"
    by (cases "get_ecdh ec epriv alice_epub") (auto simp: handshake_act2_def Let_def)
  from get_bolt8_hkdf_total obtain ck k2
    where kdf: "get_bolt8_hkdf (hs_ck (c_hs st)) ss = Inr (ck, k2)" by blast
  from assms k e kdf have "k2 = temp_k2"
    by (cases "aead_decrypt k2 0 (hs_h (update (c_hs st) alice_epub)) tag")
       (simp_all add: handshake_act2_def Let_def hs_ck_update)
  with k e kdf ep show ?thesis by blast
qed


section \<open>The steps of \<^verbatim>\<open>main_loop\<close>\<close>

lemma main_loop_rejects_reply:
  assumes "act1_initiator_message ec (HandshakeState_init pubkey) my_privkey = (Inr msg, hs)"
    and "reader_read (2 ^ 10) reader = (rspns, rd)"
    and "length rspns \<noteq> 50 \<or> rspns ! 0 \<noteq> 0x00"
  shows "main_loop ec my_privkey pubkey reader =
           Some (Inl AssertionError,
                 \<lparr>c_hs = hs, c_reader = rd, c_writer = msg, c_sn = 0, c_rn = 0,
                  c_processed = [], c_closed = False\<rparr>)"
proof -
  define st where "st = \<lparr>c_hs = HandshakeState_init pubkey, c_reader = reader, c_writer = [],
                 c_sn = 0, c_rn = 0, c_processed = [], c_closed = False\<rparr>"
  have "handshake_act1 ec my_privkey st =
      (Inl AssertionError, st\<lparr>c_hs := hs, c_writer := c_writer st @ msg, c_reader := rd\<rparr>)"
    using handshake_act1_reply [of ec st my_privkey msg hs rspns rd] assms
    by (simp add: st_def)
  then show ?thesis
    by (simp add: main_loop_def handshake_def Let_def st_def [symmetric]) (simp add: st_def)
qed





section \<open>The calls of the cipher\<close>






















section \<open>The sample run\<close>

text \<open>
  The sample run goes through: the keys of the \<^verbatim>\<open>__main__\<close> block against a peer that
  answers as the protocol asks.
\<close>

lemma take_sample_privkey: "take 32 sample_privkey = replicate 32 0x21"
  by (simp add: sample_privkey_def)

lemma sample_create_ephemeral_key:
  "create_ephemeral_key sample_ec sample_privkey =
     Inr (replicate 32 0x21,
       [0x02, 0x8d, 0x75, 0x00, 0xdd, 0x4c, 0x12, 0x68, 0x5d, 0x1f, 0x56,
        0x8b, 0x4c, 0x2b, 0x50, 0x48, 0xe8, 0x53, 0x4b, 0x87, 0x33, 0x19,
        0xf3, 0xa8, 0xda, 0xa6, 0x12, 0xb4, 0x69, 0x13, 0x2e, 0xc7, 0xf7])"
  by (simp add: create_ephemeral_key_def privkey_to_pubkey_def sample_ec_def sample_privkey_def
      hexval_def is_space_def)

lemma sample_get_ecdh:
  "get_ecdh sample_ec (replicate 32 0x21) sample_pubkey =
     Inr (H256
       [0x03, 0x9a, 0x82, 0x71, 0x94, 0x42, 0x4b, 0xba, 0x95, 0x39, 0x97,
        0x6e, 0x87, 0x6e, 0xb9, 0xe3, 0xdb, 0x0b, 0x17, 0xe3, 0xcc, 0x0a,
        0xa7, 0xd5, 0xb2, 0xb5, 0xca, 0xcf, 0xf4, 0xbf, 0xb1, 0xd8, 0x75])"
  "get_ecdh sample_ec (replicate 32 0x21) sample_alice_epub =
     Inr (H256
       [0x03, 0xe1, 0xd4, 0xab, 0x05, 0x53, 0x82, 0x19, 0x7e, 0xf4, 0x18,
        0xae, 0x4b, 0x32, 0x11, 0x1d, 0x8f, 0x65, 0xa2, 0x22, 0x50, 0x85,
        0x1c, 0x24, 0x60, 0xc1, 0x13, 0x98, 0xa1, 0xae, 0x38, 0xf3, 0x9b])"
  by (simp_all add: get_ecdh_def sample_ec_def sample_pubkey_def sample_alice_epub_def)

lemma sample_secrets:
  "get_ecdh sample_ec (replicate 32 0x21) sample_pubkey = Inr sample_ss1"
  "get_ecdh sample_ec (replicate 32 0x21) sample_alice_epub = Inr sample_ss2"
  by (simp_all add: sample_ss1_def sample_ss2_def take_sample_privkey sample_get_ecdh written_def)


lemma sample_act1:
  "act1_initiator_message sample_ec (HandshakeState_init sample_pubkey) sample_privkey
     = (Inr sample_act1_msg, sample_hs1)"
proof -
  have e: "get_ecdh sample_ec (replicate 32 0x21) (responder_pub (HandshakeState_init sample_pubkey))
      = Inr (H256
       [0x03, 0x9a, 0x82, 0x71, 0x94, 0x42, 0x4b, 0xba, 0x95, 0x39, 0x97,
        0x6e, 0x87, 0x6e, 0xb9, 0xe3, 0xdb, 0x0b, 0x17, 0xe3, 0xcc, 0x0a,
        0xa7, 0xd5, 0xb2, 0xb5, 0xca, 0xcf, 0xf4, 0xbf, 0xb1, 0xd8, 0x75])"
    by (simp only: responder_pub_init sample_get_ecdh)
  from get_bolt8_hkdf_total obtain ck2 temp_k1
    where kdf: "get_bolt8_hkdf (hs_ck (HandshakeState_init sample_pubkey))
       (H256
       [0x03, 0x9a, 0x82, 0x71, 0x94, 0x42, 0x4b, 0xba, 0x95, 0x39, 0x97,
        0x6e, 0x87, 0x6e, 0xb9, 0xe3, 0xdb, 0x0b, 0x17, 0xe3, 0xcc, 0x0a,
        0xa7, 0xd5, 0xb2, 0xb5, 0xca, 0xcf, 0xf4, 0xbf, 0xb1, 0xd8, 0x75]) = Inr (ck2, temp_k1)"
    by blast
  from aead_encrypt_hkdf_key(1) [OF kdf, of 0 _ "[]"] obtain tag
    where tag: "aead_encrypt temp_k1 0 (hs_h (update (HandshakeState_init sample_pubkey)
       [0x02, 0x8d, 0x75, 0x00, 0xdd, 0x4c, 0x12, 0x68, 0x5d, 0x1f, 0x56,
        0x8b, 0x4c, 0x2b, 0x50, 0x48, 0xe8, 0x53, 0x4b, 0x87, 0x33, 0x19,
        0xf3, 0xa8, 0xda, 0xa6, 0x12, 0xb4, 0x69, 0x13, 0x2e, 0xc7, 0xf7])) [] = Inr tag"
    by auto
  from act1_initiator_message_ok [OF sample_create_ephemeral_key _ e kdf tag]
  show ?thesis by (simp add: sample_act1_msg_def sample_hs1_def written_def)
qed

lemma length_sample_act1_msg: "length sample_act1_msg = 50"
  using sample_act1 by (rule act1_initiator_message_length)

lemma hs_ck_sample_hs1: "hs_ck sample_hs1 = sample_ck1"
proof -
  from act1_initiator_message_returns [OF sample_act1] obtain epriv epub ss ck2 temp_k1 c
    where k: "create_ephemeral_key sample_ec sample_privkey = Inr (epriv, epub)"
      and e: "get_ecdh sample_ec epriv (responder_pub (HandshakeState_init sample_pubkey)) = Inr ss"
      and kdf: "get_bolt8_hkdf (hs_ck (HandshakeState_init sample_pubkey)) ss = Inr (ck2, temp_k1)"
      and hs: "sample_hs1 = update ((update (HandshakeState_init sample_pubkey) epub)\<lparr>hs_ck := ck2\<rparr>) c"
    by blast
  from k have "epriv = replicate 32 0x21" by (simp add: sample_create_ephemeral_key)
  with e have "ss = sample_ss1" by (simp add: responder_pub_init sample_secrets)
  with kdf have ck: "ck2 = sample_ck1" by (simp add: hs_ck_init sample_ck1_def hkdf_keys_def)
  show ?thesis unfolding hs by (simp add: update_def ck)
qed

lemma length_sample_temp_k2: "length sample_temp_k2 = 32"
  by (simp add: sample_temp_k2_def hkdf_keys)



lemma sample_act2_reply:
  "\<exists>tag. aead_encrypt sample_temp_k2 0 (hs_h (update sample_hs1 sample_alice_epub)) [] = Inr tag
        \<and> length tag = 16 \<and> sample_act2_reply = [0x00] @ sample_alice_epub @ tag"
proof -
  from aead_encrypt_eq [OF length_sample_temp_k2, of 0 "hs_h (update sample_hs1 sample_alice_epub)" "[]"]
  obtain tag where
    tag: "aead_encrypt sample_temp_k2 0 (hs_h (update sample_hs1 sample_alice_epub)) [] = Inr tag"
    by auto
  from aead_encrypt_length [OF tag] tag show ?thesis
    by (simp add: sample_act2_reply_def written_def handshake_version_def)
qed

lemma sample_handshake_act2:
  "\<exists>tag st'.
     handshake_act2 sample_ec sample_privkey sample_alice_epub tag
       \<lparr>c_hs = sample_hs1, c_reader = \<lparr>rd_buffer = [], rd_pending = []\<rparr>,
        c_writer = sample_act1_msg, c_sn = 0, c_rn = 0, c_processed = [], c_closed = False\<rparr>
     = (Inr sample_temp_k2, st')"
proof -
  define st1 where "st1 = \<lparr>c_hs = sample_hs1, c_reader = \<lparr>rd_buffer = [], rd_pending = []\<rparr>,
        c_writer = sample_act1_msg, c_sn = 0, c_rn = 0, c_processed = [], c_closed = False\<rparr>"
  from sample_act2_reply obtain tag where
    tag: "aead_encrypt sample_temp_k2 0 (hs_h (update sample_hs1 sample_alice_epub)) [] = Inr tag"
    by blast
  have kdf2: "get_bolt8_hkdf (hs_ck (c_hs st1)) sample_ss2 = Inr (sample_ck2, sample_temp_k2)"
    by (simp add: st1_def hs_ck_sample_hs1 sample_ck2_def sample_temp_k2_def hkdf_keys_pair)
  have dec: "aead_decrypt sample_temp_k2 0 (hs_h (update (c_hs st1) sample_alice_epub)) tag = Inr []"
    using aead_decrypt_encrypt [OF tag] by (simp add: st1_def)
  from handshake_act2_ok [OF sample_create_ephemeral_key sample_secrets(2) kdf2 dec]
  show ?thesis unfolding st1_def by blast
qed




section \<open>The claims\<close>

subsection \<open>C1: a frame delivered one byte at a time\<close>

text \<open>
  C1. The frame that \<^verbatim>\<open>send_message\<close> writes for the six-byte message
  \<open>00 10 00 00 00 00\<close> under the key \<open>21 .. 21\<close> and nonce 0 has 40 bytes. Delivered in
  one chunk, \<^verbatim>\<open>read_message\<close> returns the message. Delivered one byte at a time,
  \<^verbatim>\<open>read_message\<close> does not accumulate 18 bytes: it hands the single byte of its first
  read to \<^verbatim>\<open>aead_decrypt\<close> and raises \<^verbatim>\<open>InvalidTag\<close>, with the other 39 bytes still
  to come.
\<close>

theorem read_message_one_byte_at_a_time:
  "\<exists>frame. send_message [] [0, 16, 0, 0, 0, 0] (replicate 32 0x21) 0 = Inr frame
      \<and> length frame = 40
      \<and> read_message \<lparr>rd_buffer = [], rd_pending = [frame]\<rparr> (replicate 32 0x21) 0
          = Some (Inr [0, 16, 0, 0, 0, 0], \<lparr>rd_buffer = [], rd_pending = []\<rparr>)
      \<and> read_message \<lparr>rd_buffer = [], rd_pending = map (\<lambda>b. [b]) frame\<rparr> (replicate 32 0x21) 0
          = Some (Inl InvalidTag, \<lparr>rd_buffer = [], rd_pending = map (\<lambda>b. [b]) (tl frame)\<rparr>)"
proof -
  define K :: bytes where "K = replicate 32 0x21"
  define m :: bytes where "m = [0, 16, 0, 0, 0, 0]"
  have K: "length K = 32" by (simp add: K_def)
  have m: "length m < 65536" by (simp add: m_def)
  from send_message_frame [OF K _ m, of 0 "[]"] obtain lc c
    where lc: "aead_encrypt K 0 [] (nat_be 2 (length m)) = Inr lc" "length lc = 18"
      and c: "aead_encrypt K (0 + 1) [] m = Inr c" "length c = length m + 16"
      and w: "send_message [] m K 0 = Inr ([] @ lc @ c)"
    by auto
  define frame where "frame = lc @ c"
  have len: "length frame = 40" by (simp add: frame_def lc c m_def)
  then obtain b bs where fr: "frame = b # bs" by (cases frame) auto
  have one: "read_message \<lparr>rd_buffer = [], rd_pending = [frame]\<rparr> K 0
      = Some (Inr m, \<lparr>rd_buffer = [], rd_pending = []\<rparr>)"
  proof (rule read_message_whole_frame [OF lc(1) c(1) m, where rest = "[]"])
    show "reader_read (2 ^ 10) \<lparr>rd_buffer = [], rd_pending = [frame]\<rparr>
        = (lc @ c @ [], \<lparr>rd_buffer = [], rd_pending = []\<rparr>)"
    proof -
      have "frame \<noteq> []" "length frame \<le> 1024" using len by auto
      from reader_read_one_chunk [OF this] show ?thesis by (simp add: frame_def)
    qed
  qed
  have many: "read_message \<lparr>rd_buffer = [], rd_pending = map (\<lambda>b. [b]) frame\<rparr> K 0
      = Some (Inl InvalidTag, \<lparr>rd_buffer = [], rd_pending = map (\<lambda>b. [b]) (tl frame)\<rparr>)"
  proof (rule read_message_short_first_read [OF K, where data = "[b]"])
    show "reader_read (2 ^ 10) \<lparr>rd_buffer = [], rd_pending = map (\<lambda>b. [b]) frame\<rparr>
        = ([b], \<lparr>rd_buffer = [], rd_pending = map (\<lambda>b. [b]) (tl frame)\<rparr>)"
    proof -
      have "[b] \<noteq> []" "length [b] \<le> 1024" by auto
      from reader_read_one_chunk [OF this] show ?thesis by (simp add: fr)
    qed
  qed simp_all
  from w len one many show ?thesis
    unfolding K_def m_def frame_def by (intro exI [of _ "lc @ c"]) simp
qed

subsection \<open>C2: the act 1 message\<close>

text \<open>
  C2. When \<^verbatim>\<open>create_ephemeral_key\<close> gives a key pair whose public key has 33 bytes
  and the shared secret with the responder's static key exists, the act 1 message is
  the byte \<open>0x00\<close>, then the 33 bytes of the ephemeral public key, then the 16 bytes
  that \<^verbatim>\<open>aead_encrypt\<close> returns for the empty plaintext under \<open>temp_k1\<close> with nonce 0
  and, as associated data, the transcript hash after mixing in the public key: 50 bytes.
\<close>

theorem act1_message_layout:
  assumes "create_ephemeral_key ec my_privkey = Inr (epriv, epub)"
    and "length epub = 33"
    and "get_ecdh ec epriv (responder_pub hs) = Inr ss"
  shows "\<exists>ck2 temp_k1 tag.
            get_bolt8_hkdf (hs_ck hs) ss = Inr (ck2, temp_k1)
          \<and> aead_encrypt temp_k1 0 (hs_h (update hs epub)) [] = Inr tag
          \<and> length tag = 16
          \<and> fst (act1_initiator_message ec hs my_privkey) = Inr ([0x00] @ epub @ tag)
          \<and> length ([0x00] @ epub @ tag) = 50"
proof -
  from get_bolt8_hkdf_total obtain ck2 temp_k1
    where kdf: "get_bolt8_hkdf (hs_ck hs) ss = Inr (ck2, temp_k1)" by blast
  from aead_encrypt_hkdf_key(1) [OF kdf, of 0 "hs_h (update hs epub)" "[]"] obtain tag
    where tag: "aead_encrypt temp_k1 0 (hs_h (update hs epub)) [] = Inr tag" "length tag = 16"
    by auto
  from act1_initiator_message_ok [OF assms kdf tag(1)] kdf tag assms(2)
  show ?thesis by auto
qed

theorem act1_message_layout_witness:
  "\<exists>epub ss.
      create_ephemeral_key sample_ec sample_privkey = Inr (replicate 32 0x21, epub)
    \<and> length epub = 33
    \<and> get_ecdh sample_ec (replicate 32 0x21) (responder_pub (HandshakeState_init sample_pubkey)) = Inr ss
    \<and> (\<exists>ck2 temp_k1 tag.
          get_bolt8_hkdf (hs_ck (HandshakeState_init sample_pubkey)) ss = Inr (ck2, temp_k1)
        \<and> aead_encrypt temp_k1 0 (hs_h (update (HandshakeState_init sample_pubkey) epub)) [] = Inr tag
        \<and> length tag = 16
        \<and> fst (act1_initiator_message sample_ec (HandshakeState_init sample_pubkey) sample_privkey)
            = Inr ([0x00] @ epub @ tag)
        \<and> length ([0x00] @ epub @ tag) = 50)"
proof -
  note k = sample_create_ephemeral_key
  have e: "get_ecdh sample_ec (replicate 32 0x21) (responder_pub (HandshakeState_init sample_pubkey))
      = Inr (H256
       [0x03, 0x9a, 0x82, 0x71, 0x94, 0x42, 0x4b, 0xba, 0x95, 0x39, 0x97,
        0x6e, 0x87, 0x6e, 0xb9, 0xe3, 0xdb, 0x0b, 0x17, 0xe3, 0xcc, 0x0a,
        0xa7, 0xd5, 0xb2, 0xb5, 0xca, 0xcf, 0xf4, 0xbf, 0xb1, 0xd8, 0x75])"
    by (simp only: responder_pub_init sample_get_ecdh)
  from act1_message_layout [OF k _ e] k e show ?thesis by simp
qed

subsection \<open>C3: key derivation\<close>

text \<open>
  C3. \<^verbatim>\<open>get_bolt8_hkdf\<close> is a function of the chaining key and the input key
  material alone and never raises: with \<open>PRK = HMAC-SHA256(chainingKey, ikm)\<close> it
  returns \<open>T1 = HMAC-SHA256(PRK, 0x01)\<close> and \<open>T2 = HMAC-SHA256(PRK, T1 || 0x02)\<close>,
  each of 32 bytes.
\<close>

theorem get_bolt8_hkdf_two_hmac_rounds:
  "get_bolt8_hkdf chainingKey inputKeyMaterial =
     (let PRK = hmac_sha256 chainingKey inputKeyMaterial;
          T1 = hmac_sha256 PRK [0x01];
          T2 = hmac_sha256 PRK (T1 @ [0x02])
      in Inr (T1, T2))
   \<and> length (hmac_sha256 (hmac_sha256 chainingKey inputKeyMaterial) [0x01]) = 32
   \<and> length (hmac_sha256 (hmac_sha256 chainingKey inputKeyMaterial)
               (hmac_sha256 (hmac_sha256 chainingKey inputKeyMaterial) [0x01] @ [0x02])) = 32"
  by (simp add: get_bolt8_hkdf_def Let_def length_hmac_sha256)

subsection \<open>C4: the round trip of authenticated encryption\<close>

text \<open>
  C4. For a key of 32 bytes, a nonce counter below \<open>2^64\<close>, any associated data and any
  plaintext, \<^verbatim>\<open>aead_encrypt\<close> returns a ciphertext (16 bytes longer than the
  plaintext), and \<^verbatim>\<open>aead_decrypt\<close> with the same key, nonce and associated data
  returns the plaintext from it.
\<close>

theorem aead_round_trip:
  assumes "length k = 32" "n < 2 ^ 64"
  shows "\<exists>c. aead_encrypt k n ad p = Inr c \<and> length c = length p + 16
             \<and> aead_decrypt k n ad c = Inr p"
proof -
  from aead_encrypt_eq [OF assms] obtain c where c: "aead_encrypt k n ad p = Inr c" by blast
  with aead_encrypt_length [OF c] aead_decrypt_encrypt [OF c] show ?thesis by blast
qed

theorem aead_round_trip_witness:
  "length (replicate 32 (0x21 :: byte)) = 32 \<and> (3 :: nat) < 2 ^ 64
   \<and> (\<exists>c. aead_encrypt (replicate 32 0x21) 3 [0xaa] [0, 16, 0, 0, 0, 0] = Inr c
          \<and> length c = 22
          \<and> aead_decrypt (replicate 32 0x21) 3 [0xaa] c = Inr [0, 16, 0, 0, 0, 0])"
  using aead_round_trip [of "replicate 32 0x21" 3 "[0xaa]" "[0, 16, 0, 0, 0, 0]"] by simp

subsection \<open>C5: the nonce\<close>

text \<open>
  C5. For a nonce counter \<open>n\<close> below \<open>2^64\<close>, \<^verbatim>\<open>get_nonce_bytes\<close> returns 12 bytes:
  four zero bytes, then the eight bytes of \<open>n\<close> in little-endian order (byte \<open>i\<close> is
  \<open>n div 256^i mod 256\<close>, and reading the eight bytes back gives \<open>n\<close>). This is the
  nonce that \<^verbatim>\<open>aead_encrypt\<close> and \<^verbatim>\<open>aead_decrypt\<close> pass to the cipher.
\<close>

theorem nonce_is_four_zeros_then_little_endian:
  assumes "n < 2 ^ 64"
  shows "\<exists>nb. get_nonce_bytes n = Inr nb \<and> length nb = 12
           \<and> take 4 nb = [0, 0, 0, 0]
           \<and> drop 4 nb = map (\<lambda>i. of_nat (n div 256 ^ i)) [0..<8]
           \<and> le_nat (drop 4 nb) = n
           \<and> aead_encrypt k n ad data = ChaCha20Poly1305_encrypt k nb data ad
           \<and> aead_decrypt k n ad data = ChaCha20Poly1305_decrypt k nb data ad"
proof (intro exI conjI)
  show "get_nonce_bytes n = Inr (replicate 4 0 @ nat_le 8 n)"
    using assms by (rule get_nonce_bytes_le)
  then show "aead_encrypt k n ad data = ChaCha20Poly1305_encrypt k (replicate 4 0 @ nat_le 8 n) data ad"
    and "aead_decrypt k n ad data = ChaCha20Poly1305_decrypt k (replicate 4 0 @ nat_le 8 n) data ad"
    by (simp_all add: aead_encrypt_def aead_decrypt_def)
  show "length (replicate 4 (0::byte) @ nat_le 8 n) = 12" by (simp add: length_nat_le)
  show "take 4 (replicate 4 (0::byte) @ nat_le 8 n) = [0, 0, 0, 0]" by (simp add: numeral_eq_Suc)
  show "drop 4 (replicate 4 (0::byte) @ nat_le 8 n) = map (\<lambda>i. of_nat (n div 256 ^ i)) [0..<8]"
    by (simp only: nat_le_def drop_append length_replicate drop_replicate diff_self_eq_0 replicate_0 append_Nil drop_0)
  have "n < 256 ^ 8" using assms by simp
  then have "le_nat (nat_le 8 n) = n" by (rule le_nat_nat_le)
  then show "le_nat (drop 4 (replicate 4 (0::byte) @ nat_le 8 n)) = n" by simp
qed

theorem nonce_is_four_zeros_then_little_endian_witness:
  "(0x0102030405060708 :: nat) < 2 ^ 64
   \<and> get_nonce_bytes 0x0102030405060708 = Inr [0, 0, 0, 0, 8, 7, 6, 5, 4, 3, 2, 1]"
proof -
  have h: "(0x0102030405060708 :: nat) < 2 ^ 64" by simp
  from nonce_is_four_zeros_then_little_endian [OF h, of "[]" "[]" "[]"]
  obtain nb where nb: "get_nonce_bytes 0x0102030405060708 = Inr nb" "length nb = 12"
    "take 4 nb = [0, 0, 0, 0]" "drop 4 nb = map (\<lambda>i. of_nat (0x0102030405060708 div 256 ^ i)) [0..<8]"
    by blast
  have "nb = take 4 nb @ drop 4 nb" by simp
  also have "\<dots> = [0, 0, 0, 0, 8, 7, 6, 5, 4, 3, 2, 1]"
    unfolding nb by (simp add: upt_conv_Cons)
  finally show ?thesis using h nb(1) by simp
qed

subsection \<open>C6: the check of the act 2 reply\<close>

text \<open>
  C6. The claim fails on the sample run. A reply of 50 bytes that starts with \<open>0x01\<close>
  makes \<^verbatim>\<open>main_loop\<close> raise \<^verbatim>\<open>AssertionError\<close>, not \<^verbatim>\<open>ProtocolError\<close>. A reply chunk of
  60 bytes is read whole (the reader is left empty) before it is rejected: the read
  asks for up to 1024 bytes, not for 50.
\<close>

theorem act2_reply_check_counterexample:
  "(\<exists>st. main_loop sample_ec sample_privkey sample_pubkey
            \<lparr>rd_buffer = [], rd_pending = [0x01 # replicate 49 0x00]\<rparr>
          = Some (Inl AssertionError, st))
   \<and> (\<nexists>st. main_loop sample_ec sample_privkey sample_pubkey
            \<lparr>rd_buffer = [], rd_pending = [0x01 # replicate 49 0x00]\<rparr>
          = Some (Inl ProtocolError, st))
   \<and> (\<exists>st. main_loop sample_ec sample_privkey sample_pubkey
            \<lparr>rd_buffer = [], rd_pending = [0x00 # replicate 59 0x00]\<rparr>
          = Some (Inl AssertionError, st)
        \<and> c_reader st = \<lparr>rd_buffer = [], rd_pending = []\<rparr>)"
proof -
  have r1: "reader_read (2 ^ 10) \<lparr>rd_buffer = [], rd_pending = [0x01 # replicate 49 0x00]\<rparr>
      = (0x01 # replicate 49 0x00, \<lparr>rd_buffer = [], rd_pending = []\<rparr>)"
    by (rule reader_read_one_chunk) simp_all
  have r2: "reader_read (2 ^ 10) \<lparr>rd_buffer = [], rd_pending = [0x00 # replicate 59 0x00]\<rparr>
      = (0x00 # replicate 59 0x00, \<lparr>rd_buffer = [], rd_pending = []\<rparr>)"
    by (rule reader_read_one_chunk) simp_all
  have v1: "length (0x01 # replicate 49 (0x00 :: byte)) \<noteq> 50
      \<or> (0x01 # replicate 49 (0x00 :: byte)) ! 0 \<noteq> 0x00" by simp
  have v2: "length (0x00 # replicate 59 (0x00 :: byte)) \<noteq> 50
      \<or> (0x00 # replicate 59 (0x00 :: byte)) ! 0 \<noteq> 0x00" by simp
  from main_loop_rejects_reply [OF sample_act1 r1 v1] main_loop_rejects_reply [OF sample_act1 r2 v2]
  show ?thesis by simp
qed

text \<open>
  C6, as the code has it. Once the act 1 message is written, \<^verbatim>\<open>main_loop\<close> takes what
  one \<^verbatim>\<open>read(2**10)\<close> returns. If that is not exactly 50 bytes, or its first byte is not
  \<open>0x00\<close>, \<^verbatim>\<open>main_loop\<close> raises \<^verbatim>\<open>AssertionError\<close> at once: the handshake state is
  the one act 1 left (nothing of act 2 was mixed in, no key was derived), only the act 1
  message was written, and the reader has lost what the read returned.
\<close>

theorem act2_reply_check:
  assumes "act1_initiator_message ec (HandshakeState_init pubkey) my_privkey = (Inr msg, hs)"
    and "reader_read (2 ^ 10) reader = (rspns, rd)"
    and "length rspns \<noteq> 50 \<or> rspns ! 0 \<noteq> 0x00"
  shows "main_loop ec my_privkey pubkey reader =
           Some (Inl AssertionError,
                 \<lparr>c_hs = hs, c_reader = rd, c_writer = msg, c_sn = 0, c_rn = 0,
                  c_processed = [], c_closed = False\<rparr>)"
  using assms by (rule main_loop_rejects_reply)

theorem act2_reply_check_witness:
  "act1_initiator_message sample_ec (HandshakeState_init sample_pubkey) sample_privkey
     = (Inr sample_act1_msg, sample_hs1)
   \<and> reader_read (2 ^ 10) \<lparr>rd_buffer = [], rd_pending = [0x01 # replicate 49 0x00]\<rparr>
     = (0x01 # replicate 49 0x00, \<lparr>rd_buffer = [], rd_pending = []\<rparr>)
   \<and> (0x01 # replicate 49 (0x00 :: byte)) ! 0 \<noteq> 0x00
   \<and> main_loop sample_ec sample_privkey sample_pubkey
         \<lparr>rd_buffer = [], rd_pending = [0x01 # replicate 49 0x00]\<rparr>
       = Some (Inl AssertionError,
               \<lparr>c_hs = sample_hs1, c_reader = \<lparr>rd_buffer = [], rd_pending = []\<rparr>,
                c_writer = sample_act1_msg, c_sn = 0, c_rn = 0,
                c_processed = [], c_closed = False\<rparr>)"
proof -
  have r1: "reader_read (2 ^ 10) \<lparr>rd_buffer = [], rd_pending = [0x01 # replicate 49 0x00]\<rparr>
      = (0x01 # replicate 49 0x00, \<lparr>rd_buffer = [], rd_pending = []\<rparr>)"
    by (rule reader_read_one_chunk) simp_all
  have v: "length (0x01 # replicate 49 (0x00 :: byte)) \<noteq> 50
      \<or> (0x01 # replicate 49 (0x00 :: byte)) ! 0 \<noteq> 0x00" by simp
  from act2_reply_check [OF sample_act1 r1 v] sample_act1 r1 show ?thesis by simp
qed

subsection \<open>C7: a tampered length field\<close>



subsection \<open>C8: the nonce counters\<close>




subsection \<open>C9: bytes after the frame\<close>

text \<open>
  C9. Two frames, for the messages \<open>00 10 00 00 00 00\<close> (nonces 0 and 1) and
  \<open>00 13 00 04 00 00 00 00\<close> (nonces 2 and 3), arrive in one chunk of 82 bytes. The first
  call of \<^verbatim>\<open>read_message\<close> returns the first message and leaves nothing in the
  reader: its \<^verbatim>\<open>read(2**10)\<close> took the second frame as well, and the local buffer
  that held it is dropped. The second call finds the stream at its end and raises
  \<^verbatim>\<open>InvalidTag\<close>. When the two frames arrive as two chunks, the second call returns
  the second message.
\<close>

theorem read_message_takes_following_frame:
  "\<exists>frame1 frame2.
      send_message [] [0, 16, 0, 0, 0, 0] (replicate 32 0x21) 0 = Inr frame1
    \<and> send_message [] [0, 19, 0, 4, 0, 0, 0, 0] (replicate 32 0x21) 2 = Inr frame2
    \<and> length frame1 = 40 \<and> length frame2 = 42
    \<and> read_message \<lparr>rd_buffer = [], rd_pending = [frame1 @ frame2]\<rparr> (replicate 32 0x21) 0
        = Some (Inr [0, 16, 0, 0, 0, 0], \<lparr>rd_buffer = [], rd_pending = []\<rparr>)
    \<and> read_message \<lparr>rd_buffer = [], rd_pending = []\<rparr> (replicate 32 0x21) 2
        = Some (Inl InvalidTag, \<lparr>rd_buffer = [], rd_pending = []\<rparr>)
    \<and> read_message \<lparr>rd_buffer = [], rd_pending = [frame1, frame2]\<rparr> (replicate 32 0x21) 0
        = Some (Inr [0, 16, 0, 0, 0, 0], \<lparr>rd_buffer = [], rd_pending = [frame2]\<rparr>)
    \<and> read_message \<lparr>rd_buffer = [], rd_pending = [frame2]\<rparr> (replicate 32 0x21) 2
        = Some (Inr [0, 19, 0, 4, 0, 0, 0, 0], \<lparr>rd_buffer = [], rd_pending = []\<rparr>)"
proof -
  define K :: bytes where "K = replicate 32 0x21"
  define m1 :: bytes where "m1 = [0, 16, 0, 0, 0, 0]"
  define m2 :: bytes where "m2 = [0, 19, 0, 4, 0, 0, 0, 0]"
  have K: "length K = 32" by (simp add: K_def)
  have m1: "length m1 < 65536" and m2: "length m2 < 65536" by (simp_all add: m1_def m2_def)
  from send_message_frame [OF K _ m1, of 0 "[]"] obtain lc1 c1
    where lc1: "aead_encrypt K 0 [] (nat_be 2 (length m1)) = Inr lc1" "length lc1 = 18"
      and c1: "aead_encrypt K (0 + 1) [] m1 = Inr c1" "length c1 = length m1 + 16"
      and w1: "send_message [] m1 K 0 = Inr ([] @ lc1 @ c1)"
    by auto
  from send_message_frame [OF K _ m2, of 2 "[]"] obtain lc2 c2
    where lc2: "aead_encrypt K 2 [] (nat_be 2 (length m2)) = Inr lc2" "length lc2 = 18"
      and c2: "aead_encrypt K (2 + 1) [] m2 = Inr c2" "length c2 = length m2 + 16"
      and w2: "send_message [] m2 K 2 = Inr ([] @ lc2 @ c2)"
    by auto
  define frame1 where "frame1 = lc1 @ c1"
  define frame2 where "frame2 = lc2 @ c2"
  have len1: "length frame1 = 40" by (simp add: frame1_def lc1 c1 m1_def)
  have len2: "length frame2 = 42" by (simp add: frame2_def lc2 c2 m2_def)
  have both: "read_message \<lparr>rd_buffer = [], rd_pending = [frame1 @ frame2]\<rparr> K 0
      = Some (Inr m1, \<lparr>rd_buffer = [], rd_pending = []\<rparr>)"
  proof (rule read_message_whole_frame [OF lc1(1) c1(1) m1, where rest = frame2])
    show "reader_read (2 ^ 10) \<lparr>rd_buffer = [], rd_pending = [frame1 @ frame2]\<rparr>
        = (lc1 @ c1 @ frame2, \<lparr>rd_buffer = [], rd_pending = []\<rparr>)"
    proof -
      have "frame1 @ frame2 \<noteq> []" "length (frame1 @ frame2) \<le> 1024" using len1 len2 by auto
      from reader_read_one_chunk [OF this] show ?thesis by (simp add: frame1_def)
    qed
  qed
  have next_call: "read_message \<lparr>rd_buffer = [], rd_pending = []\<rparr> K 2
      = Some (Inl InvalidTag, \<lparr>rd_buffer = [], rd_pending = []\<rparr>)"
    by (rule read_message_short_first_read [OF K _ reader_read_eof]) simp_all
  have first: "read_message \<lparr>rd_buffer = [], rd_pending = [frame1, frame2]\<rparr> K 0
      = Some (Inr m1, \<lparr>rd_buffer = [], rd_pending = [frame2]\<rparr>)"
  proof (rule read_message_whole_frame [OF lc1(1) c1(1) m1, where rest = "[]"])
    show "reader_read (2 ^ 10) \<lparr>rd_buffer = [], rd_pending = [frame1, frame2]\<rparr>
        = (lc1 @ c1 @ [], \<lparr>rd_buffer = [], rd_pending = [frame2]\<rparr>)"
    proof -
      have "frame1 \<noteq> []" "length frame1 \<le> 1024" using len1 by auto
      from reader_read_one_chunk [OF this] show ?thesis by (simp add: frame1_def)
    qed
  qed
  have second: "read_message \<lparr>rd_buffer = [], rd_pending = [frame2]\<rparr> K 2
      = Some (Inr m2, \<lparr>rd_buffer = [], rd_pending = []\<rparr>)"
  proof (rule read_message_whole_frame [OF lc2(1) c2(1) m2, where rest = "[]"])
    show "reader_read (2 ^ 10) \<lparr>rd_buffer = [], rd_pending = [frame2]\<rparr>
        = (lc2 @ c2 @ [], \<lparr>rd_buffer = [], rd_pending = []\<rparr>)"
    proof -
      have "frame2 \<noteq> []" "length frame2 \<le> 1024" using len2 by auto
      from reader_read_one_chunk [OF this] show ?thesis by (simp add: frame2_def)
    qed
  qed
  from w1 w2 len1 len2 both next_call first second show ?thesis
    unfolding K_def m1_def m2_def frame1_def frame2_def
    by (intro exI [of _ "lc1 @ c1"] exI [of _ "lc2 @ c2"]) simp
qed

subsection \<open>C10: the ephemeral key\<close>

text \<open>
  C10. \<^verbatim>\<open>create_ephemeral_key\<close> is a function of its input (and of the curve
  primitive): it returns the first 32 bytes of the input as the private scalar, with
  the public key that \<^verbatim>\<open>privkey_to_pubkey\<close> derives from the input. So when act 1
  returns a message, the 33 bytes after its version byte are
  \<^verbatim>\<open>privkey_to_pubkey(my_privkey)\<close>, the static public key that act 3 encrypts, and
  its shared secret is computed with \<^verbatim>\<open>my_privkey[:32]\<close>, the static scalar of act 3;
  and when act 2 returns, the key pair it has recomputed is the same pair and its shared
  secret is again computed with \<^verbatim>\<open>my_privkey[:32]\<close>.
\<close>

theorem ephemeral_key_is_static_key:
  "create_ephemeral_key ec my_privkey =
     (case privkey_to_pubkey ec my_privkey of Inl e \<Rightarrow> Inl e
      | Inr pub \<Rightarrow> Inr (take 32 my_privkey, pub))
   \<and> (\<forall>hs msg hs'. act1_initiator_message ec hs my_privkey = (Inr msg, hs') \<longrightarrow>
          privkey_to_pubkey ec my_privkey = Inr (take 33 (drop 1 msg))
        \<and> create_ephemeral_key ec my_privkey = Inr (take 32 my_privkey, take 33 (drop 1 msg))
        \<and> (\<exists>ss ck temp_k1. get_ecdh ec (take 32 my_privkey) (responder_pub hs) = Inr ss
              \<and> get_bolt8_hkdf (hs_ck hs) ss = Inr (ck, temp_k1) \<and> hs_ck hs' = ck))
   \<and> (\<forall>alice_epub tag st temp_k2 st'.
          handshake_act2 ec my_privkey alice_epub tag st = (Inr temp_k2, st') \<longrightarrow>
          (\<exists>pub ss ck. privkey_to_pubkey ec my_privkey = Inr pub
              \<and> create_ephemeral_key ec my_privkey = Inr (take 32 my_privkey, pub)
              \<and> get_ecdh ec (take 32 my_privkey) alice_epub = Inr ss
              \<and> get_bolt8_hkdf (hs_ck (c_hs st)) ss = Inr (ck, temp_k2)))"
proof (intro conjI allI impI)
  show "create_ephemeral_key ec my_privkey =
     (case privkey_to_pubkey ec my_privkey of Inl e \<Rightarrow> Inl e
      | Inr pub \<Rightarrow> Inr (take 32 my_privkey, pub))"
    by (simp add: create_ephemeral_key_def)
next
  fix hs msg hs'
  assume a: "act1_initiator_message ec hs my_privkey = (Inr msg, hs')"
  from act1_initiator_message_returns [OF a] obtain epriv epub ss ck2 temp_k1 c
    where k: "create_ephemeral_key ec my_privkey = Inr (epriv, epub)"
      and e: "get_ecdh ec epriv (responder_pub hs) = Inr ss"
      and kdf: "get_bolt8_hkdf (hs_ck hs) ss = Inr (ck2, temp_k1)"
      and msg: "msg = [0x00] @ epub @ c" and len: "length epub = 33"
      and hs': "hs' = update ((update hs epub)\<lparr>hs_ck := ck2\<rparr>) c"
    by blast
  from create_ephemeral_key_returns [OF k]
  have ep: "epriv = take 32 my_privkey" and pub: "privkey_to_pubkey ec my_privkey = Inr epub"
    by simp_all
  have t: "take 33 (drop 1 msg) = epub" by (simp add: msg len)
  show "privkey_to_pubkey ec my_privkey = Inr (take 33 (drop 1 msg))" by (simp only: t pub)
  show "create_ephemeral_key ec my_privkey = Inr (take 32 my_privkey, take 33 (drop 1 msg))"
    using k by (simp only: t ep)
  have "hs_ck hs' = ck2" by (simp add: hs' update_def)
  with e kdf ep
  show "\<exists>ss ck temp_k1. get_ecdh ec (take 32 my_privkey) (responder_pub hs) = Inr ss
              \<and> get_bolt8_hkdf (hs_ck hs) ss = Inr (ck, temp_k1) \<and> hs_ck hs' = ck"
    by blast
next
  fix alice_epub tag st temp_k2 st'
  assume a: "handshake_act2 ec my_privkey alice_epub tag st = (Inr temp_k2, st')"
  from handshake_act2_returns [OF a] obtain pub ss ck
    where k: "create_ephemeral_key ec my_privkey = Inr (take 32 my_privkey, pub)"
      and e: "get_ecdh ec (take 32 my_privkey) alice_epub = Inr ss"
      and kdf: "get_bolt8_hkdf (hs_ck (c_hs st)) ss = Inr (ck, temp_k2)"
    by blast
  from create_ephemeral_key_returns [OF k] k e kdf
  show "\<exists>pub ss ck. privkey_to_pubkey ec my_privkey = Inr pub
              \<and> create_ephemeral_key ec my_privkey = Inr (take 32 my_privkey, pub)
              \<and> get_ecdh ec (take 32 my_privkey) alice_epub = Inr ss
              \<and> get_bolt8_hkdf (hs_ck (c_hs st)) ss = Inr (ck, temp_k2)"
    by blast
qed

theorem ephemeral_key_is_static_key_witness:
  "act1_initiator_message sample_ec (HandshakeState_init sample_pubkey) sample_privkey
     = (Inr sample_act1_msg, sample_hs1)
   \<and> privkey_to_pubkey sample_ec sample_privkey = Inr (take 33 (drop 1 sample_act1_msg))
   \<and> create_ephemeral_key sample_ec sample_privkey
     = Inr (take 32 sample_privkey, take 33 (drop 1 sample_act1_msg))
   \<and> take 32 sample_privkey = replicate 32 0x21
   \<and> take 33 (drop 1 sample_act1_msg) =
       [0x02, 0x8d, 0x75, 0x00, 0xdd, 0x4c, 0x12, 0x68, 0x5d, 0x1f, 0x56,
        0x8b, 0x4c, 0x2b, 0x50, 0x48, 0xe8, 0x53, 0x4b, 0x87, 0x33, 0x19,
        0xf3, 0xa8, 0xda, 0xa6, 0x12, 0xb4, 0x69, 0x13, 0x2e, 0xc7, 0xf7]
   \<and> (\<exists>tag st st'.
         handshake_act2 sample_ec sample_privkey sample_alice_epub tag st = (Inr sample_temp_k2, st')
       \<and> (\<exists>ss ck. get_ecdh sample_ec (take 32 sample_privkey) sample_alice_epub = Inr ss
              \<and> get_bolt8_hkdf (hs_ck (c_hs st)) ss = Inr (ck, sample_temp_k2)))"
proof -
  note inst = ephemeral_key_is_static_key [of sample_ec sample_privkey]
  from inst sample_act1
  have a: "privkey_to_pubkey sample_ec sample_privkey = Inr (take 33 (drop 1 sample_act1_msg))"
    and b: "create_ephemeral_key sample_ec sample_privkey
      = Inr (take 32 sample_privkey, take 33 (drop 1 sample_act1_msg))"
    by blast+
  from b have c: "take 33 (drop 1 sample_act1_msg) =
       [0x02, 0x8d, 0x75, 0x00, 0xdd, 0x4c, 0x12, 0x68, 0x5d, 0x1f, 0x56,
        0x8b, 0x4c, 0x2b, 0x50, 0x48, 0xe8, 0x53, 0x4b, 0x87, 0x33, 0x19,
        0xf3, 0xa8, 0xda, 0xa6, 0x12, 0xb4, 0x69, 0x13, 0x2e, 0xc7, 0xf7]"
    by (simp add: sample_create_ephemeral_key)
  from sample_handshake_act2 obtain tag st' where
    h2: "handshake_act2 sample_ec sample_privkey sample_alice_epub tag
       \<lparr>c_hs = sample_hs1, c_reader = \<lparr>rd_buffer = [], rd_pending = []\<rparr>,
        c_writer = sample_act1_msg, c_sn = 0, c_rn = 0, c_processed = [], c_closed = False\<rparr>
     = (Inr sample_temp_k2, st')" by blast
  from inst h2 have d: "\<exists>ss ck. get_ecdh sample_ec (take 32 sample_privkey) sample_alice_epub = Inr ss
      \<and> get_bolt8_hkdf (hs_ck (c_hs \<lparr>c_hs = sample_hs1, c_reader = \<lparr>rd_buffer = [], rd_pending = []\<rparr>,
        c_writer = sample_act1_msg, c_sn = 0, c_rn = 0, c_processed = [], c_closed = False\<rparr>)) ss
          = Inr (ck, sample_temp_k2)"
    by blast
  from sample_act1 a b c take_sample_privkey h2 d show ?thesis by blast
qed

end
